theory Spec2Isabelle
  imports Main
begin

section \<open>Directory-tree generator: the decoded document\<close>

text \<open>
  The program (\<^verbatim>\<open>main.go\<close>) reads a JSON or YAML file into a Go value of type
  \<^verbatim>\<open>map[string]interface{}\<close>, walks it with \<^verbatim>\<open>createDirs\<close> to create one directory
  per key, and counts keys with \<^verbatim>\<open>countTotalDirectories\<close>.

  A value of type \<^verbatim>\<open>interface{}\<close> produced by the decoders is \<^verbatim>\<open>nil\<close>, a boolean, a
  number, a string, a slice, or a \<^verbatim>\<open>map[string]interface{}\<close>. The program never looks
  inside a number, so its payload is kept as an integer only to tell numbers apart.
  A Go map is modelled as an association list: the order of the list is the order in
  which \<^verbatim>\<open>range\<close> happens to visit the keys in the run under consideration. Every
  theorem below holds for every list, hence for every iteration order.
\<close>

datatype jvalue =
    Null
  | Bool bool
  | Num int
  | Str string
  | List "jvalue list"
  | Map "(string \<times> jvalue) list"

type_synonym "structure" = "(string \<times> jvalue) list"

section \<open>The operating system as seen by \<^verbatim>\<open>createDirs\<close>\<close>

text \<open>
  \<^verbatim>\<open>createDirs\<close> uses four services of the Go runtime: \<^verbatim>\<open>runtime.GOOS\<close>,
  \<^verbatim>\<open>filepath.Join\<close>, \<^verbatim>\<open>os.Stat\<close> (only through \<^verbatim>\<open>os.IsNotExist\<close>) and
  \<^verbatim>\<open>os.MkdirAll\<close>. They are the fields of a \<open>platform\<close>; the file system is an explicit
  state of type \<open>'fs\<close> that \<open>mkdirAll\<close> returns updated. An error value carries what the
  program asks of it: its class (\<^verbatim>\<open>os.IsPermission\<close>, \<^verbatim>\<open>os.IsExist\<close>, neither) and its
  text (\<^verbatim>\<open>%v\<close>).
\<close>

datatype errkind = IsPermission | IsExist | IsOther

datatype oserror = OSError errkind string

fun kind_of :: "oserror \<Rightarrow> errkind" where
  "kind_of (OSError k m) = k"

fun text_of :: "oserror \<Rightarrow> string" where
  "text_of (OSError k m) = m"

record 'fs platform =
  windows :: bool
  join :: "string \<Rightarrow> string \<Rightarrow> string"
  stat_notexist :: "'fs \<Rightarrow> string \<Rightarrow> bool"
  mkdirAll :: "'fs \<Rightarrow> string \<Rightarrow> oserror option \<times> 'fs"

section \<open>Log entries and their text\<close>

text \<open>
  Each \<^verbatim>\<open>append(logs, ...)\<close> of \<^verbatim>\<open>createDirs\<close> is one constructor of \<open>entry\<close>, holding
  the arguments of its format string; \<open>render\<close> is the text that \<^verbatim>\<open>fmt.Sprintf\<close> builds
  from them, byte for byte (Go strings are byte sequences, the source is UTF-8). The Go
  function returns \<open>map render\<close> of the entry list computed by \<open>createDirs\<close> below.
\<close>

datatype entry =
    EmptyRootPath
  | RootMissing string
  | RootCreateFailed string string
  | RootCreated string
  | SkippedEmptyName
  | PrefixApplied string string
  | SkippedIllegalChars string
  | SkippedPathTooLong string
  | AlreadyExists string
  | PermissionDenied string
  | OtherError string string
  | Created string

text \<open>The fixed parts of the messages, as UTF-8 bytes (code points in the comments).\<close>

definition t_empty_root :: string where
  \<comment> \<open>U+9519 U+8BEF U+FF1A U+76EE U+6807 U+8DEF U+5F84 U+4E3A U+7A7A U+FF0C U+65E0 U+6CD5
      U+521B U+5EFA U+76EE U+5F55, newline\<close>
  "t_empty_root = [CHR 0xE9, CHR 0x94, CHR 0x99, CHR 0xE8, CHR 0xAF, CHR 0xAF, CHR 0xEF, CHR 0xBC, CHR 0x9A,
     CHR 0xE7, CHR 0x9B, CHR 0xAE, CHR 0xE6, CHR 0xA0, CHR 0x87, CHR 0xE8, CHR 0xB7, CHR 0xAF,
     CHR 0xE5, CHR 0xBE, CHR 0x84, CHR 0xE4, CHR 0xB8, CHR 0xBA, CHR 0xE7, CHR 0xA9, CHR 0xBA,
     CHR 0xEF, CHR 0xBC, CHR 0x8C, CHR 0xE6, CHR 0x97, CHR 0xA0, CHR 0xE6, CHR 0xB3, CHR 0x95,
     CHR 0xE5, CHR 0x88, CHR 0x9B, CHR 0xE5, CHR 0xBB, CHR 0xBA, CHR 0xE7, CHR 0x9B, CHR 0xAE,
     CHR 0xE5, CHR 0xBD, CHR 0x95, CHR 0x0A]"

definition t_root_missing :: string where
  \<comment> \<open>U+8B66 U+544A U+FF1A U+76EE U+6807 U+8DEF U+5F84 U+4E0D U+5B58 U+5728 U+FF0C U+5C06
      U+5C1D U+8BD5 U+521B U+5EFA U+FF1A\<close>
  "t_root_missing = [CHR 0xE8, CHR 0xAD, CHR 0xA6, CHR 0xE5, CHR 0x91, CHR 0x8A, CHR 0xEF, CHR 0xBC, CHR 0x9A,
     CHR 0xE7, CHR 0x9B, CHR 0xAE, CHR 0xE6, CHR 0xA0, CHR 0x87, CHR 0xE8, CHR 0xB7, CHR 0xAF,
     CHR 0xE5, CHR 0xBE, CHR 0x84, CHR 0xE4, CHR 0xB8, CHR 0x8D, CHR 0xE5, CHR 0xAD, CHR 0x98,
     CHR 0xE5, CHR 0x9C, CHR 0xA8, CHR 0xEF, CHR 0xBC, CHR 0x8C, CHR 0xE5, CHR 0xB0, CHR 0x86,
     CHR 0xE5, CHR 0xB0, CHR 0x9D, CHR 0xE8, CHR 0xAF, CHR 0x95, CHR 0xE5, CHR 0x88, CHR 0x9B,
     CHR 0xE5, CHR 0xBB, CHR 0xBA, CHR 0xEF, CHR 0xBC, CHR 0x9A]"

definition t_root_failed :: string where
  \<comment> \<open>U+9519 U+8BEF U+FF1A U+65E0 U+6CD5 U+521B U+5EFA U+76EE U+6807 U+8DEF U+5F84, space\<close>
  "t_root_failed = [CHR 0xE9, CHR 0x94, CHR 0x99, CHR 0xE8, CHR 0xAF, CHR 0xAF, CHR 0xEF, CHR 0xBC, CHR 0x9A,
     CHR 0xE6, CHR 0x97, CHR 0xA0, CHR 0xE6, CHR 0xB3, CHR 0x95, CHR 0xE5, CHR 0x88, CHR 0x9B,
     CHR 0xE5, CHR 0xBB, CHR 0xBA, CHR 0xE7, CHR 0x9B, CHR 0xAE, CHR 0xE6, CHR 0xA0, CHR 0x87,
     CHR 0xE8, CHR 0xB7, CHR 0xAF, CHR 0xE5, CHR 0xBE, CHR 0x84, CHR 0x20]"

definition t_reason :: string where
  \<comment> \<open>U+539F U+56E0 U+FF1A\<close>
  "t_reason = [CHR 0xE5, CHR 0x8E, CHR 0x9F, CHR 0xE5, CHR 0x9B, CHR 0xA0, CHR 0xEF, CHR 0xBC, CHR 0x9A]"

definition t_root_created :: string where
  \<comment> \<open>U+6210 U+529F U+FF1A U+5DF2 U+521B U+5EFA U+76EE U+6807 U+8DEF U+5F84, space\<close>
  "t_root_created = [CHR 0xE6, CHR 0x88, CHR 0x90, CHR 0xE5, CHR 0x8A, CHR 0x9F, CHR 0xEF, CHR 0xBC, CHR 0x9A,
     CHR 0xE5, CHR 0xB7, CHR 0xB2, CHR 0xE5, CHR 0x88, CHR 0x9B, CHR 0xE5, CHR 0xBB, CHR 0xBA,
     CHR 0xE7, CHR 0x9B, CHR 0xAE, CHR 0xE6, CHR 0xA0, CHR 0x87, CHR 0xE8, CHR 0xB7, CHR 0xAF,
     CHR 0xE5, CHR 0xBE, CHR 0x84, CHR 0x20]"

definition t_skip_empty :: string where
  \<comment> \<open>U+8DF3 U+8FC7 U+FF1A U+53D1 U+73B0 U+7A7A U+7684 U+76EE U+5F55 U+540D U+79F0, newline\<close>
  "t_skip_empty = [CHR 0xE8, CHR 0xB7, CHR 0xB3, CHR 0xE8, CHR 0xBF, CHR 0x87, CHR 0xEF, CHR 0xBC, CHR 0x9A,
     CHR 0xE5, CHR 0x8F, CHR 0x91, CHR 0xE7, CHR 0x8E, CHR 0xB0, CHR 0xE7, CHR 0xA9, CHR 0xBA,
     CHR 0xE7, CHR 0x9A, CHR 0x84, CHR 0xE7, CHR 0x9B, CHR 0xAE, CHR 0xE5, CHR 0xBD, CHR 0x95,
     CHR 0xE5, CHR 0x90, CHR 0x8D, CHR 0xE7, CHR 0xA7, CHR 0xB0, CHR 0x0A]"

definition t_prefix :: string where
  \<comment> \<open>U+5E94 U+7528 U+524D U+7F00 U+FF1A, double quote\<close>
  "t_prefix = [CHR 0xE5, CHR 0xBA, CHR 0x94, CHR 0xE7, CHR 0x94, CHR 0xA8, CHR 0xE5, CHR 0x89, CHR 0x8D,
     CHR 0xE7, CHR 0xBC, CHR 0x80, CHR 0xEF, CHR 0xBC, CHR 0x9A, CHR 0x22]"

definition t_arrow :: string where
  \<comment> \<open>double quote, space, hyphen, greater-than, space, double quote\<close>
  "t_arrow = [CHR 0x22, CHR 0x20, CHR 0x2D, CHR 0x3E, CHR 0x20, CHR 0x22]"

definition t_skip_illegal :: string where
  \<comment> \<open>U+8DF3 U+8FC7 U+FF1A U+76EE U+5F55 U+540D U+5305 U+542B U+975E U+6CD5 U+5B57 U+7B26,
      space, double quote\<close>
  "t_skip_illegal = [CHR 0xE8, CHR 0xB7, CHR 0xB3, CHR 0xE8, CHR 0xBF, CHR 0x87, CHR 0xEF, CHR 0xBC, CHR 0x9A,
     CHR 0xE7, CHR 0x9B, CHR 0xAE, CHR 0xE5, CHR 0xBD, CHR 0x95, CHR 0xE5, CHR 0x90, CHR 0x8D,
     CHR 0xE5, CHR 0x8C, CHR 0x85, CHR 0xE5, CHR 0x90, CHR 0xAB, CHR 0xE9, CHR 0x9D, CHR 0x9E,
     CHR 0xE6, CHR 0xB3, CHR 0x95, CHR 0xE5, CHR 0xAD, CHR 0x97, CHR 0xE7, CHR 0xAC, CHR 0xA6,
     CHR 0x20, CHR 0x22]"

definition t_skip_long :: string where
  \<comment> \<open>U+8DF3 U+8FC7 U+FF1A U+8DEF U+5F84 U+8FC7 U+957F U+FF08 U+8D85 U+8FC7 2 6 0 U+5B57
      U+7B26 U+FF09, double quote\<close>
  "t_skip_long = [CHR 0xE8, CHR 0xB7, CHR 0xB3, CHR 0xE8, CHR 0xBF, CHR 0x87, CHR 0xEF, CHR 0xBC, CHR 0x9A,
     CHR 0xE8, CHR 0xB7, CHR 0xAF, CHR 0xE5, CHR 0xBE, CHR 0x84, CHR 0xE8, CHR 0xBF, CHR 0x87,
     CHR 0xE9, CHR 0x95, CHR 0xBF, CHR 0xEF, CHR 0xBC, CHR 0x88, CHR 0xE8, CHR 0xB6, CHR 0x85,
     CHR 0xE8, CHR 0xBF, CHR 0x87, CHR 0x32, CHR 0x36, CHR 0x30, CHR 0xE5, CHR 0xAD, CHR 0x97,
     CHR 0xE7, CHR 0xAC, CHR 0xA6, CHR 0xEF, CHR 0xBC, CHR 0x89, CHR 0x22]"

definition t_create_failed :: string where
  \<comment> \<open>U+521B U+5EFA U+76EE U+5F55 U+5931 U+8D25 U+FF1A\<close>
  "t_create_failed = [CHR 0xE5, CHR 0x88, CHR 0x9B, CHR 0xE5, CHR 0xBB, CHR 0xBA, CHR 0xE7, CHR 0x9B, CHR 0xAE,
     CHR 0xE5, CHR 0xBD, CHR 0x95, CHR 0xE5, CHR 0xA4, CHR 0xB1, CHR 0xE8, CHR 0xB4, CHR 0xA5,
     CHR 0xEF, CHR 0xBC, CHR 0x9A]"

definition t_permission :: string where
  \<comment> \<open>U+539F U+56E0 U+FF1A U+6743 U+9650 U+4E0D U+8DB3 U+FF0C U+8BF7 U+68C0 U+67E5 U+662F
      U+5426 U+6709 U+5199 U+5165 U+6743 U+9650, newline\<close>
  "t_permission = [CHR 0xE5, CHR 0x8E, CHR 0x9F, CHR 0xE5, CHR 0x9B, CHR 0xA0, CHR 0xEF, CHR 0xBC, CHR 0x9A,
     CHR 0xE6, CHR 0x9D, CHR 0x83, CHR 0xE9, CHR 0x99, CHR 0x90, CHR 0xE4, CHR 0xB8, CHR 0x8D,
     CHR 0xE8, CHR 0xB6, CHR 0xB3, CHR 0xEF, CHR 0xBC, CHR 0x8C, CHR 0xE8, CHR 0xAF, CHR 0xB7,
     CHR 0xE6, CHR 0xA3, CHR 0x80, CHR 0xE6, CHR 0x9F, CHR 0xA5, CHR 0xE6, CHR 0x98, CHR 0xAF,
     CHR 0xE5, CHR 0x90, CHR 0xA6, CHR 0xE6, CHR 0x9C, CHR 0x89, CHR 0xE5, CHR 0x86, CHR 0x99,
     CHR 0xE5, CHR 0x85, CHR 0xA5, CHR 0xE6, CHR 0x9D, CHR 0x83, CHR 0xE9, CHR 0x99, CHR 0x90,
     CHR 0x0A]"

definition t_exists :: string where
  \<comment> \<open>U+76EE U+5F55 U+5DF2 U+5B58 U+5728 U+FF1A\<close>
  "t_exists = [CHR 0xE7, CHR 0x9B, CHR 0xAE, CHR 0xE5, CHR 0xBD, CHR 0x95, CHR 0xE5, CHR 0xB7, CHR 0xB2,
     CHR 0xE5, CHR 0xAD, CHR 0x98, CHR 0xE5, CHR 0x9C, CHR 0xA8, CHR 0xEF, CHR 0xBC, CHR 0x9A]"

definition t_created :: string where
  \<comment> \<open>U+2713, space, U+6210 U+529F U+521B U+5EFA U+FF1A\<close>
  "t_created = [CHR 0xE2, CHR 0x9C, CHR 0x93, CHR 0x20, CHR 0xE6, CHR 0x88, CHR 0x90, CHR 0xE5, CHR 0x8A,
     CHR 0x9F, CHR 0xE5, CHR 0x88, CHR 0x9B, CHR 0xE5, CHR 0xBB, CHR 0xBA, CHR 0xEF, CHR 0xBC,
     CHR 0x9A]"

fun render :: "entry \<Rightarrow> string" where
  "render EmptyRootPath = t_empty_root"
| "render (RootMissing basePath) = t_root_missing @ basePath @ [CHR 0x0A]"
| "render (RootCreateFailed basePath reason) =
     t_root_failed @ basePath @ [CHR 0x0A] @ t_reason @ reason @ [CHR 0x0A]"
| "render (RootCreated basePath) = t_root_created @ basePath @ [CHR 0x0A]"
| "render SkippedEmptyName = t_skip_empty"
| "render (PrefixApplied dir finalDirName) =
     t_prefix @ dir @ t_arrow @ finalDirName @ [CHR 0x22, CHR 0x0A]"
| "render (SkippedIllegalChars finalDirName) =
     t_skip_illegal @ finalDirName @ [CHR 0x22, CHR 0x0A]"
| "render (SkippedPathTooLong fullPath) = t_skip_long @ fullPath @ [CHR 0x22, CHR 0x0A]"
| "render (AlreadyExists fullPath) = t_exists @ fullPath @ [CHR 0x0A]"
| "render (PermissionDenied fullPath) =
     t_create_failed @ fullPath @ [CHR 0x0A] @ t_permission"
| "render (OtherError fullPath reason) =
     t_create_failed @ fullPath @ [CHR 0x0A] @ t_reason @ reason @ [CHR 0x0A]"
| "render (Created fullPath) = t_created @ fullPath @ [CHR 0x0A]"

section \<open>\<^verbatim>\<open>createDirs\<close>\<close>

text \<open>
  \<^verbatim>\<open>strings.ContainsAny(s, chars)\<close>: some code point of \<open>chars\<close> occurs in \<open>s\<close>. The
  program's \<open>chars\<close> are seven ASCII characters, for which this is a test on bytes.
\<close>

definition containsAny :: "string \<Rightarrow> string \<Rightarrow> bool" where
  "containsAny s chars = (\<exists>c \<in> set s. c \<in> set chars)"

definition illegalChars :: string where
  \<comment> \<open>the raw string literal \<^verbatim>\<open><>:"|?*\<close>\<close>
  "illegalChars = [CHR ''<'', CHR ''>'', CHR '':'', CHR 0x22, CHR ''|'', CHR ''?'', CHR ''*'']"

text \<open>
  \<open>createDirs\<close> is the Go function up to its loop, \<open>createDirs_loop\<close> is the
  \<^verbatim>\<open>for dir, subDirs := range structure\<close> loop, one equation per iteration. The branches
  are those of the source, in its order: empty name, prefix, illegal characters, path
  length on Windows, then \<^verbatim>\<open>os.MkdirAll\<close> and the classification of its error. After the
  permission branch and the final \<^verbatim>\<open>else\<close> branch the source appends the failure
  message and falls through to the recursion at the end of the loop body, the same one
  that follows a successful creation; the \<^verbatim>\<open>os.IsExist\<close> branch holds its own copy of
  that recursion, followed by \<^verbatim>\<open>continue\<close>. The type assertion
  \<^verbatim>\<open>subDirs.(map[string]interface{})\<close> succeeds exactly on a \<open>Map\<close>. The calls of
  \<^verbatim>\<open>log.Printf\<close> write to standard error and do not affect the result.
\<close>

fun createDirs ::
    "'fs platform \<Rightarrow> string \<Rightarrow> structure \<Rightarrow> bool \<Rightarrow> string \<Rightarrow> 'fs \<Rightarrow> entry list \<times> 'fs"
  and createDirs_loop ::
    "'fs platform \<Rightarrow> string \<Rightarrow> structure \<Rightarrow> bool \<Rightarrow> string \<Rightarrow> 'fs \<Rightarrow> entry list \<times> 'fs"
where
  "createDirs P basePath struct enablePrefix prefix fs =
     (if basePath = [] then ([EmptyRootPath], fs)
      else if stat_notexist P fs basePath then
        (case mkdirAll P fs basePath of
           (Some err, fs1) \<Rightarrow>
             ([RootMissing basePath, RootCreateFailed basePath (text_of err)], fs1)
         | (None, fs1) \<Rightarrow>
             (case createDirs_loop P basePath struct enablePrefix prefix fs1 of
                (logs, fs2) \<Rightarrow> (RootMissing basePath # RootCreated basePath # logs, fs2)))
      else createDirs_loop P basePath struct enablePrefix prefix fs)"
| "createDirs_loop P basePath [] enablePrefix prefix fs = ([], fs)"
| "createDirs_loop P basePath ((dir, subDirs) # rest) enablePrefix prefix fs =
     (if dir = [] then
        (case createDirs_loop P basePath rest enablePrefix prefix fs of
           (logs, fs') \<Rightarrow> (SkippedEmptyName # logs, fs'))
      else
        let finalDirName = (if enablePrefix \<and> prefix \<noteq> [] then prefix @ dir else dir);
            applied = (if enablePrefix \<and> prefix \<noteq> []
                       then [PrefixApplied dir finalDirName] else [])
        in
        if containsAny finalDirName illegalChars then
          (case createDirs_loop P basePath rest enablePrefix prefix fs of
             (logs, fs') \<Rightarrow> (applied @ SkippedIllegalChars finalDirName # logs, fs'))
        else
          let fullPath = join P basePath finalDirName in
          if windows P \<and> length fullPath > 260 then
            (case createDirs_loop P basePath rest enablePrefix prefix fs of
               (logs, fs') \<Rightarrow> (applied @ SkippedPathTooLong fullPath # logs, fs'))
          else
            (case mkdirAll P fs fullPath of
               (Some err, fs1) \<Rightarrow>
                 (case kind_of err of
                    IsPermission \<Rightarrow>
                      (case (case subDirs of
                               Map subDirsMap \<Rightarrow>
                                 createDirs P fullPath subDirsMap enablePrefix prefix fs1
                             | _ \<Rightarrow> ([], fs1)) of
                         (sub, fs2) \<Rightarrow>
                           (case createDirs_loop P basePath rest enablePrefix prefix fs2 of
                              (logs, fs3) \<Rightarrow>
                                (applied @ PermissionDenied fullPath # sub @ logs, fs3)))
                  | IsExist \<Rightarrow>
                      (case (case subDirs of
                               Map subDirsMap \<Rightarrow>
                                 createDirs P fullPath subDirsMap enablePrefix prefix fs1
                             | _ \<Rightarrow> ([], fs1)) of
                         (sub, fs2) \<Rightarrow>
                           (case createDirs_loop P basePath rest enablePrefix prefix fs2 of
                              (logs, fs3) \<Rightarrow>
                                (applied @ AlreadyExists fullPath # sub @ logs, fs3)))
                  | IsOther \<Rightarrow>
                      (case (case subDirs of
                               Map subDirsMap \<Rightarrow>
                                 createDirs P fullPath subDirsMap enablePrefix prefix fs1
                             | _ \<Rightarrow> ([], fs1)) of
                         (sub, fs2) \<Rightarrow>
                           (case createDirs_loop P basePath rest enablePrefix prefix fs2 of
                              (logs, fs3) \<Rightarrow>
                                (applied @ OtherError fullPath (text_of err) # sub @ logs,
                                 fs3))))
             | (None, fs1) \<Rightarrow>
                 (case (case subDirs of
                          Map subDirsMap \<Rightarrow>
                            createDirs P fullPath subDirsMap enablePrefix prefix fs1
                        | _ \<Rightarrow> ([], fs1)) of
                    (sub, fs2) \<Rightarrow>
                      (case createDirs_loop P basePath rest enablePrefix prefix fs2 of
                         (logs, fs3) \<Rightarrow> (applied @ Created fullPath # sub @ logs, fs3)))))"

text \<open>
  Names for the parts of one iteration, used to state its effect: the final directory
  name, the \<open>PrefixApplied\<close> entry (if any), the entry for the outcome of
  \<^verbatim>\<open>os.MkdirAll\<close>, and the recursion at the end of the loop body.
\<close>

definition finalName :: "bool \<Rightarrow> string \<Rightarrow> string \<Rightarrow> string" where
  "finalName enablePrefix prefix dir =
     (if enablePrefix \<and> prefix \<noteq> [] then prefix @ dir else dir)"

definition prefixNote :: "bool \<Rightarrow> string \<Rightarrow> string \<Rightarrow> entry list" where
  "prefixNote enablePrefix prefix dir =
     (if enablePrefix \<and> prefix \<noteq> [] then [PrefixApplied dir (prefix @ dir)] else [])"

fun outcome :: "oserror option \<Rightarrow> string \<Rightarrow> entry" where
  "outcome None fullPath = Created fullPath"
| "outcome (Some err) fullPath =
     (case kind_of err of
        IsPermission \<Rightarrow> PermissionDenied fullPath
      | IsExist \<Rightarrow> AlreadyExists fullPath
      | IsOther \<Rightarrow> OtherError fullPath (text_of err))"

definition descend ::
    "'fs platform \<Rightarrow> string \<Rightarrow> jvalue \<Rightarrow> bool \<Rightarrow> string \<Rightarrow> 'fs \<Rightarrow> entry list \<times> 'fs" where
  "descend P fullPath subDirs enablePrefix prefix fs =
     (case subDirs of
        Map subDirsMap \<Rightarrow> createDirs P fullPath subDirsMap enablePrefix prefix fs
      | _ \<Rightarrow> ([], fs))"

section \<open>A POSIX platform\<close>

text \<open>
  A concrete platform on which the functions can be run: \<^verbatim>\<open>filepath.Join\<close> and
  \<^verbatim>\<open>filepath.Clean\<close> for the separator \<^verbatim>\<open>/\<close>, and a store of directories with two
  permission attributes. It has no regular files and no symbolic links.
\<close>

subsection \<open>\<^verbatim>\<open>filepath.Clean\<close> and \<^verbatim>\<open>filepath.Join\<close>\<close>

definition isSep :: "char \<Rightarrow> bool" where
  "isSep c = (c = CHR ''/'')"

fun splitSep :: "string \<Rightarrow> string list" where
  "splitSep [] = [[]]"
| "splitSep (c # s) =
     (if isSep c then [] # splitSep s
      else (case splitSep s of e # es \<Rightarrow> (c # e) # es | [] \<Rightarrow> [[c]]))"

text \<open>
  \<^verbatim>\<open>Clean\<close> reads the path element by element and writes the result: an empty element
  and \<^verbatim>\<open>.\<close> are dropped; \<^verbatim>\<open>..\<close> removes the element written last, unless nothing
  but \<^verbatim>\<open>..\<close> elements has been written, in which case it is dropped in a rooted path
  and written otherwise. \<open>out\<close> holds the elements written, the last one first.
\<close>

fun cleanElems :: "bool \<Rightarrow> string list \<Rightarrow> string list \<Rightarrow> string list" where
  "cleanElems rooted out [] = rev out"
| "cleanElems rooted out (e # es) =
     (if e = [] \<or> e = ''.'' then cleanElems rooted out es
      else if e = ''..'' then
        (case out of
           w # ws \<Rightarrow>
             if w \<noteq> ''..'' then cleanElems rooted ws es
             else cleanElems rooted (e # out) es
         | [] \<Rightarrow> if rooted then cleanElems rooted out es else cleanElems rooted [e] es)
      else cleanElems rooted (e # out) es)"

fun joinSep :: "string list \<Rightarrow> string" where
  "joinSep [] = []"
| "joinSep [e] = e"
| "joinSep (e # es) = e @ ''/'' @ joinSep es"

definition Clean :: "string \<Rightarrow> string" where
  "Clean path =
     (if path = [] then ''.''
      else
        let rooted = isSep (hd path);
            out = (if rooted then ''/'' else [])
                    @ joinSep (cleanElems rooted [] (splitSep path))
        in if out = [] then ''.'' else out)"

text \<open>
  \<^verbatim>\<open>Join(a, b)\<close> drops leading empty arguments, joins the rest with the separator and
  cleans the result; with nothing left it is the empty string.
\<close>

definition Join :: "string \<Rightarrow> string \<Rightarrow> string" where
  "Join a b =
     (if a = [] then (if b = [] then [] else Clean b)
      else Clean (a @ ''/'' @ b))"

subsection \<open>The directory store\<close>

text \<open>
  A directory is named by the elements of its path; an absolute path starts with the
  empty element, a relative one is relative to the working directory. The root and the
  working directory always exist. Creating an entry in a \<open>readonly\<close> directory is
  refused; in a \<open>noaccess\<close> directory every lookup below it is refused as well. The
  elements \<^verbatim>\<open>.\<close> and \<^verbatim>\<open>..\<close> are not interpreted: every path that \<open>createDirs\<close> builds
  has been cleaned by \<open>Join\<close>.
\<close>

record dirfs =
  dirs :: "string list list"
  readonly :: "string list list"
  noaccess :: "string list list"

datatype errno = ENOENT | EACCES | EEXIST

definition comps :: "string \<Rightarrow> string list" where
  "comps path =
     (if path \<noteq> [] \<and> isSep (hd path) then [[]] else [])
       @ filter (\<lambda>e. e \<noteq> []) (splitSep path)"

definition isDir :: "dirfs \<Rightarrow> string list \<Rightarrow> bool" where
  "isDir fs cs = (cs = [] \<or> cs = [[]] \<or> cs \<in> set (dirs fs))"

definition blocked :: "dirfs \<Rightarrow> string list \<Rightarrow> bool" where
  "blocked fs cs = (\<exists>n \<in> set [0 ..< length cs]. take n cs \<in> set (noaccess fs))"

text \<open>\<^verbatim>\<open>stat(2)\<close>: \<open>None\<close> when the path names a directory, the error otherwise.\<close>

definition stat :: "dirfs \<Rightarrow> string \<Rightarrow> errno option" where
  "stat fs path =
     (if path = [] then Some ENOENT
      else if blocked fs (comps path) then Some EACCES
      else if isDir fs (comps path) then None
      else Some ENOENT)"

text \<open>\<^verbatim>\<open>mkdir(2)\<close>: the lookup of the parent, then existence, then the permission.\<close>

definition mkdir :: "dirfs \<Rightarrow> string \<Rightarrow> errno option \<times> dirfs" where
  "mkdir fs path =
     (let cs = comps path in
      if path = [] then (Some ENOENT, fs)
      else if blocked fs cs then (Some EACCES, fs)
      else if isDir fs cs then (Some EEXIST, fs)
      else if \<not> isDir fs (butlast cs) then (Some ENOENT, fs)
      else if butlast cs \<in> set (readonly fs) \<or> butlast cs \<in> set (noaccess fs)
        then (Some EACCES, fs)
      else (None, fs\<lparr>dirs := dirs fs @ [cs]\<rparr>))"

definition strerror :: "errno \<Rightarrow> string" where
  "strerror e =
     (case e of
        ENOENT \<Rightarrow> ''no such file or directory''
      | EACCES \<Rightarrow> ''permission denied''
      | EEXIST \<Rightarrow> ''file exists'')"

text \<open>
  The \<^verbatim>\<open>*PathError\<close> of a failed \<^verbatim>\<open>os.Mkdir\<close>: \<^verbatim>\<open>os.IsPermission\<close> holds for
  \<^verbatim>\<open>EACCES\<close>, \<^verbatim>\<open>os.IsExist\<close> for \<^verbatim>\<open>EEXIST\<close>; its text is
  \<^verbatim>\<open>"mkdir " + path + ": " + message\<close>.
\<close>

definition pathError :: "string \<Rightarrow> errno \<Rightarrow> oserror" where
  "pathError path e =
     OSError (case e of EACCES \<Rightarrow> IsPermission | EEXIST \<Rightarrow> IsExist | ENOENT \<Rightarrow> IsOther)
             (''mkdir '' @ path @ '': '' @ strerror e)"

subsection \<open>\<^verbatim>\<open>os.MkdirAll\<close>\<close>

text \<open>
  The parent that \<^verbatim>\<open>MkdirAll\<close> recurses on: the path without its trailing separators
  and without its last element (the separator before that element is kept).
\<close>

definition parentOf :: "string \<Rightarrow> string" where
  "parentOf path = rev (dropWhile (\<lambda>c. \<not> isSep c) (dropWhile isSep (rev path)))"

lemma parentOf_shorter: "path \<noteq> [] \<Longrightarrow> length (parentOf path) < length path"
proof -
  assume "path \<noteq> []"
  then obtain c cs where r: "rev path = c # cs"
    by (cases "rev path") auto
  have "length (dropWhile (\<lambda>c. \<not> isSep c) (dropWhile isSep (c # cs))) \<le> length cs"
  proof (cases "isSep c")
    case True
    have "length (dropWhile (\<lambda>c. \<not> isSep c) (dropWhile isSep cs))
            \<le> length (dropWhile isSep cs)"
      by (rule length_dropWhile_le)
    also have "\<dots> \<le> length cs"
      by (rule length_dropWhile_le)
    finally show ?thesis using True by simp
  next
    case False
    then show ?thesis by (simp add: length_dropWhile_le)
  qed
  then have "length (parentOf path) \<le> length cs"
    by (simp add: parentOf_def r)
  moreover have "length path = Suc (length cs)"
    using r by (metis length_Cons length_rev)
  ultimately show ?thesis by simp
qed

text \<open>
  \<^verbatim>\<open>os.MkdirAll(path, 0755)\<close>, after the library's source: if \<^verbatim>\<open>Stat\<close> finds a
  directory, nothing is done and the result is \<^verbatim>\<open>nil\<close> (its documentation: "If
  path is already a directory, MkdirAll does nothing and returns nil"); otherwise the
  parent is created
  by a recursive call, then \<^verbatim>\<open>Mkdir(path)\<close> is called, and its error is returned
  unless the directory is found to exist after all.
\<close>

function MkdirAll :: "dirfs \<Rightarrow> string \<Rightarrow> oserror option \<times> dirfs" where
  "MkdirAll fs path =
     (case stat fs path of
        None \<Rightarrow> (None, fs)
      | Some _ \<Rightarrow>
          (case (if parentOf path \<noteq> [] then MkdirAll fs (parentOf path) else (None, fs)) of
             (Some err, fs1) \<Rightarrow> (Some err, fs1)
           | (None, fs1) \<Rightarrow>
               (case mkdir fs1 path of
                  (Some e, fs2) \<Rightarrow>
                    if stat fs2 path = None then (None, fs2)
                    else (Some (pathError path e), fs2)
                | (None, fs2) \<Rightarrow> (None, fs2))))"
  by pat_completeness auto
termination
proof (relation "measure (\<lambda>(fs, path). length path)")
  show "wf (measure (\<lambda>(fs, path). length path))" by simp
next
  fix fs :: dirfs and path :: string and e :: errno
  assume "stat fs path = Some e" and "parentOf path \<noteq> []"
  then have "path \<noteq> []" by (auto simp: parentOf_def)
  then show "((fs, parentOf path), (fs, path)) \<in> measure (\<lambda>(fs, path). length path)"
    by (simp add: parentOf_shorter)
qed

declare MkdirAll.simps [simp del]

definition posix :: "dirfs platform" where
  "posix = \<lparr> windows = False, join = Join,
             stat_notexist = (\<lambda>fs path. stat fs path = Some ENOENT),
             mkdirAll = MkdirAll \<rparr>"

text \<open>A store holding the single directory \<^verbatim>\<open>/r\<close>, writable.\<close>

definition only_r :: dirfs where
  "only_r = \<lparr> dirs = [[[], ''r'']], readonly = [], noaccess = [] \<rparr>"

text \<open>
  The same store with \<^verbatim>\<open>/r\<close> read-only, with \<^verbatim>\<open>/r\<close> inaccessible, and after the
  creation of \<^verbatim>\<open>/r/a\<close> and of \<^verbatim>\<open>/r/a/b\<close>.
\<close>

definition readonly_r :: dirfs where
  "readonly_r = \<lparr> dirs = [[[], ''r'']], readonly = [[[], ''r'']], noaccess = [] \<rparr>"

definition sealed_r :: dirfs where
  "sealed_r = \<lparr> dirs = [[[], ''r'']], readonly = [], noaccess = [[[], ''r'']] \<rparr>"

definition with_a :: dirfs where
  "with_a = \<lparr> dirs = [[[], ''r''], [[], ''r'', ''a'']], readonly = [], noaccess = [] \<rparr>"

definition with_a_b :: dirfs where
  "with_a_b = \<lparr> dirs = [[[], ''r''], [[], ''r'', ''a''], [[], ''r'', ''a'', ''b'']],
                readonly = [], noaccess = [] \<rparr>"

text \<open>
  \<open>grows fs fs'\<close>: the store \<open>fs'\<close> has every directory of \<open>fs\<close>, and the same
  permissions.
\<close>

definition grows :: "dirfs \<Rightarrow> dirfs \<Rightarrow> bool" where
  "grows fs fs' = (set (dirs fs) \<subseteq> set (dirs fs') \<and> readonly fs' = readonly fs
                   \<and> noaccess fs' = noaccess fs)"

section \<open>\<^verbatim>\<open>countTotalDirectories\<close>\<close>

text \<open>
  One iteration of the loop adds one for the key and, when the value is a map, the count
  of that map. The result is a Go \<^verbatim>\<open>int\<close>; no tree that fits in memory has
  \<open>2\<^sup>6\<^sup>3\<close> keys, so it is a natural number here.
\<close>

fun countTotalDirectories :: "structure \<Rightarrow> nat" where
  "countTotalDirectories [] = 0"
| "countTotalDirectories ((dir, subDirs) # rest) =
     1 + (case subDirs of Map subDirsMap \<Rightarrow> countTotalDirectories subDirsMap | _ \<Rightarrow> 0)
       + countTotalDirectories rest"

section \<open>The nodes of a tree and their paths\<close>

text \<open>
  Every (name, children) pair of a tree, at every depth, parent before children: the
  nodes the specification speaks of.
\<close>

fun all_nodes :: "structure \<Rightarrow> (string \<times> jvalue) list" where
  "all_nodes [] = []"
| "all_nodes ((name, children) # rest) =
     (name, children)
       # (case children of Map m \<Rightarrow> all_nodes m | _ \<Rightarrow> [])
       @ all_nodes rest"

text \<open>
  The full path of every node when each name \<open>n\<close> is turned into the final name \<open>f n\<close>
  and joined to the path of its parent with \<open>j\<close>; the same \<open>f\<close> at every depth.
\<close>

fun node_paths ::
    "(string \<Rightarrow> string \<Rightarrow> string) \<Rightarrow> (string \<Rightarrow> string) \<Rightarrow> string \<Rightarrow> structure \<Rightarrow> string list" where
  "node_paths j f base [] = []"
| "node_paths j f base ((name, children) # rest) =
     j base (f name)
       # (case children of Map m \<Rightarrow> node_paths j f (j base (f name)) m | _ \<Rightarrow> [])
       @ node_paths j f base rest"

text \<open>
  \<open>uses_names j f base t e\<close>: the entry \<open>e\<close> speaks of a node of \<open>t\<close> under its final
  name. A path in \<open>e\<close> is the path of a node computed with \<open>f\<close> (for the entries about a
  root also \<open>base\<close> itself); the name in a \<open>SkippedIllegalChars\<close> entry is \<open>f\<close> of a
  node's name; a \<open>PrefixApplied\<close> entry shows a node's name and \<open>f\<close> of it.
\<close>

fun uses_names ::
    "(string \<Rightarrow> string \<Rightarrow> string) \<Rightarrow> (string \<Rightarrow> string) \<Rightarrow> string \<Rightarrow> structure \<Rightarrow> entry \<Rightarrow> bool" where
  "uses_names j f base t (Created p) = (p \<in> set (node_paths j f base t))"
| "uses_names j f base t (AlreadyExists p) = (p \<in> set (node_paths j f base t))"
| "uses_names j f base t (PermissionDenied p) = (p \<in> set (node_paths j f base t))"
| "uses_names j f base t (OtherError p r) = (p \<in> set (node_paths j f base t))"
| "uses_names j f base t (SkippedPathTooLong p) = (p \<in> set (node_paths j f base t))"
| "uses_names j f base t (SkippedIllegalChars n) = (n \<in> set (map (f \<circ> fst) (all_nodes t)))"
| "uses_names j f base t (PrefixApplied d n) = (d \<in> set (map fst (all_nodes t)) \<and> n = f d)"
| "uses_names j f base t (RootMissing p) = (p = base \<or> p \<in> set (node_paths j f base t))"
| "uses_names j f base t (RootCreateFailed p r) = (p = base \<or> p \<in> set (node_paths j f base t))"
| "uses_names j f base t (RootCreated p) = (p = base \<or> p \<in> set (node_paths j f base t))"
| "uses_names j f base t EmptyRootPath = True"
| "uses_names j f base t SkippedEmptyName = True"

text \<open>The tree \<^verbatim>\<open>{"a": {"b": null}, "c<": null}\<close>, visited in this order.\<close>

definition sample_tree :: "structure" where
  "sample_tree = [(''a'', Map [(''b'', Null)]), (''c<'', Null)]"

text \<open>The type assertion \<^verbatim>\<open>subDirs.(map[string]interface{})\<close> as a test.\<close>

fun isMapping :: "jvalue \<Rightarrow> bool" where
  "isMapping (Map m) = True"
| "isMapping _ = False"

section \<open>\<^verbatim>\<open>parseStructureFromFile\<close>\<close>

text \<open>
  The function reads the file and hands its bytes to \<^verbatim>\<open>json.Unmarshal\<close> or
  \<^verbatim>\<open>yaml.Unmarshal\<close> with a \<^verbatim>\<open>*map[string]interface{}\<close> as target. Its services are
  the fields of a \<open>loader\<close>: whether \<^verbatim>\<open>os.Stat\<close> reports that the file does not exist,
  \<^verbatim>\<open>os.ReadFile\<close>, and for each format the document that the bytes denote (as the
  value Go builds for it) or the decoder's syntax error. Each \<^verbatim>\<open>fmt.Errorf\<close> of the
  source is one constructor of \<open>parse_error\<close>, holding the arguments of its message.
\<close>

datatype format = JSON | YAML

datatype parse_error =
    FileNotExist string
  | FileUnreadable string string
  | EmptyFile string
  | DecodeError format string string
  | UnsupportedFormat string
  | EmptyStructure string

record loader =
  file_notexist :: "string \<Rightarrow> bool"
  readFile :: "string \<Rightarrow> string + string"
  json_decode :: "string \<Rightarrow> string + jvalue"
  yaml_decode :: "string \<Rightarrow> string + jvalue"

text \<open>
  \<^verbatim>\<open>filepath.Ext\<close>: the suffix of the last path element that starts at its last dot,
  empty if it has no dot. \<^verbatim>\<open>strings.ToLower\<close> on the letters \<^verbatim>\<open>A\<close> to \<^verbatim>\<open>Z\<close>; no
  character outside ASCII has a lower-case form that is a letter of \<^verbatim>\<open>.json\<close>,
  \<^verbatim>\<open>.yaml\<close> or \<^verbatim>\<open>.yml\<close>, so the comparison below is not affected by leaving the other
  bytes as they are.
\<close>

definition Ext :: "string \<Rightarrow> string" where
  "Ext path =
     (let r = rev path;
          after = takeWhile (\<lambda>c. c \<noteq> CHR ''.'' \<and> \<not> isSep c) r;
          before = dropWhile (\<lambda>c. c \<noteq> CHR ''.'' \<and> \<not> isSep c) r
      in case before of
           c # cs \<Rightarrow> if c = CHR ''.'' then CHR ''.'' # rev after else []
         | [] \<Rightarrow> [])"

definition toLower :: "string \<Rightarrow> string" where
  "toLower s =
     map (\<lambda>c. if 65 \<le> (of_char c :: nat) \<and> (of_char c :: nat) \<le> 90
               then char_of (of_char c + 32 :: nat) else c) s"

text \<open>
  Unmarshalling a document into the map: an object fills the map, \<^verbatim>\<open>null\<close> leaves it
  \<^verbatim>\<open>nil\<close> without an error, and any other document is a type error of the decoder
  (its text is abridged here). The values of the object are stored as they are:
  the element type of the map is \<^verbatim>\<open>interface{}\<close>.
\<close>

fun kindName :: "jvalue \<Rightarrow> string" where
  "kindName Null = ''null''"
| "kindName (Bool b) = ''bool''"
| "kindName (Num n) = ''number''"
| "kindName (Str s) = ''string''"
| "kindName (List l) = ''array''"
| "kindName (Map m) = ''object''"

definition unmarshal :: "(string + jvalue) \<Rightarrow> string + structure" where
  "unmarshal doc =
     (case doc of
        Inl msg \<Rightarrow> Inl msg
      | Inr Null \<Rightarrow> Inr []
      | Inr (Map m) \<Rightarrow> Inr m
      | Inr v \<Rightarrow> Inl (''cannot unmarshal '' @ kindName v
                       @ '' into Go value of type map[string]interface {}''))"

definition parseStructureFromFile :: "loader \<Rightarrow> string \<Rightarrow> parse_error + structure" where
  "parseStructureFromFile L filePath =
     (if file_notexist L filePath then Inl (FileNotExist filePath)
      else
        case readFile L filePath of
          Inl err \<Rightarrow> Inl (FileUnreadable filePath err)
        | Inr data \<Rightarrow>
            if length data = 0 then Inl (EmptyFile filePath)
            else
              let ext = toLower (Ext filePath) in
              case (if ext = ''.json'' then
                      (case unmarshal (json_decode L data) of
                         Inl err \<Rightarrow> Inl (DecodeError JSON filePath err)
                       | Inr struct \<Rightarrow> Inr struct)
                    else if ext = ''.yaml'' \<or> ext = ''.yml'' then
                      (case unmarshal (yaml_decode L data) of
                         Inl err \<Rightarrow> Inl (DecodeError YAML filePath err)
                       | Inr struct \<Rightarrow> Inr struct)
                    else Inl (UnsupportedFormat ext)) of
                Inl err \<Rightarrow> Inl err
              | Inr struct \<Rightarrow>
                  if length struct = 0 then Inl (EmptyStructure filePath)
                  else Inr struct)"

text \<open>
  The format chosen for a path and the decoder's result for the data: what the
  specification calls the decoded document. \<open>None\<close> for an unsupported extension.
\<close>

definition decoded :: "loader \<Rightarrow> string \<Rightarrow> string \<Rightarrow> (format \<times> (string + jvalue)) option" where
  "decoded L filePath data =
     (let ext = toLower (Ext filePath) in
      if ext = ''.json'' then Some (JSON, json_decode L data)
      else if ext = ''.yaml'' \<or> ext = ''.yml'' then Some (YAML, yaml_decode L data)
      else None)"

text \<open>
  A document holds, at some depth, a value that is neither a mapping nor null.
\<close>

fun invalidChild :: "jvalue \<Rightarrow> bool" where
  "invalidChild Null = False"
| "invalidChild (Map m) = (\<exists>v \<in> set (map snd m). invalidChild v)"
| "invalidChild v = True"

text \<open>
  A loader given by two tables: the files by path, and the documents by text (the same
  table for both decoders). The demonstration loader holds an empty file, \<^verbatim>\<open>{}\<close>,
  \<^verbatim>\<open>{"a": null}\<close> and its YAML form \<^verbatim>\<open>a:\<close>, \<^verbatim>\<open>{"a": "x"}\<close>, and the JSON string
  \<^verbatim>\<open>"x"\<close>.
\<close>

definition table_loader :: "(string \<times> string) list \<Rightarrow> (string \<times> jvalue) list \<Rightarrow> loader" where
  "table_loader files docs =
     \<lparr> file_notexist = (\<lambda>p. map_of files p = None),
       readFile = (\<lambda>p. case map_of files p of
                          None \<Rightarrow> Inl (''open '' @ p @ '': no such file or directory'')
                        | Some d \<Rightarrow> Inr d),
       json_decode = (\<lambda>d. case map_of docs d of
                             None \<Rightarrow> Inl ''invalid character'' | Some v \<Rightarrow> Inr v),
       yaml_decode = (\<lambda>d. case map_of docs d of
                             None \<Rightarrow> Inl ''yaml: did not find expected node content''
                           | Some v \<Rightarrow> Inr v) \<rparr>"

definition text_a_x :: string where
  "text_a_x = [CHR 0x7B, CHR 0x22, CHR ''a'', CHR 0x22, CHR '':'', CHR '' '',
               CHR 0x22, CHR ''x'', CHR 0x22, CHR 0x7D]"

definition text_a_null :: string where
  "text_a_null = [CHR 0x7B, CHR 0x22, CHR ''a'', CHR 0x22, CHR '':'', CHR '' '',
                  CHR ''n'', CHR ''u'', CHR ''l'', CHR ''l'', CHR 0x7D]"

definition demo_loader :: loader where
  "demo_loader = table_loader
     [(''/c/empty.json'', []), (''/c/none.json'', ''{}''), (''/c/none.yaml'', ''{}''),
      (''/c/a.json'', text_a_null), (''/c/a.yml'', ''a:''), (''/c/x.json'', text_a_x),
      (''/c/s.json'', [CHR 0x22, CHR ''x'', CHR 0x22])]
     [(''{}'', Map []), (text_a_null, Map [(''a'', Null)]), (''a:'', Map [(''a'', Null)]),
      (text_a_x, Map [(''a'', Str ''x'')]), ([CHR 0x22, CHR ''x'', CHR 0x22], Str ''x'')]"

section \<open>The summary computed in \<^verbatim>\<open>main\<close>\<close>

text \<open>
  \<^verbatim>\<open>strings.HasPrefix\<close>, and \<^verbatim>\<open>strings.Count\<close>: the number of non-overlapping
  occurrences of \<open>substr\<close>, found from left to right, each search starting after the
  occurrence before. (For an empty \<open>substr\<close> the library returns the number of code
  points plus one; the program never asks for that, and \<open>Count\<close> is 0 there.)
\<close>

fun hasPrefix :: "string \<Rightarrow> string \<Rightarrow> bool" where
  "hasPrefix s [] = True"
| "hasPrefix [] (p # ps) = False"
| "hasPrefix (c # s) (p # ps) = (c = p \<and> hasPrefix s ps)"

function Count :: "string \<Rightarrow> string \<Rightarrow> nat" where
  "Count s substr =
     (if substr = [] \<or> s = [] then 0
      else if hasPrefix s substr then 1 + Count (drop (length substr) s) substr
      else Count (tl s) substr)"
  by pat_completeness auto
termination
  by (relation "measure (\<lambda>(s, substr). length s)") auto

declare Count.simps [simp del]

text \<open>\<^verbatim>\<open>strings.Contains\<close>.\<close>

fun contains :: "string \<Rightarrow> string \<Rightarrow> bool" where
  "contains [] substr = (substr = [])"
| "contains (c # s) substr = (hasPrefix (c # s) substr \<or> contains s substr)"

text \<open>
  The three strings \<^verbatim>\<open>main\<close> counts: U+2713, space, U+6210 U+529F U+521B U+5EFA;
  U+9519 U+8BEF U+FF1A; U+8DF3 U+8FC7 U+FF1A.
\<close>

definition created_marker :: string where
  "created_marker = [CHR 0xE2, CHR 0x9C, CHR 0x93, CHR 0x20, CHR 0xE6, CHR 0x88, CHR 0x90,
     CHR 0xE5, CHR 0x8A, CHR 0x9F, CHR 0xE5, CHR 0x88, CHR 0x9B, CHR 0xE5, CHR 0xBB, CHR 0xBA]"

definition error_marker :: string where
  "error_marker = [CHR 0xE9, CHR 0x94, CHR 0x99, CHR 0xE8, CHR 0xAF, CHR 0xAF, CHR 0xEF, CHR 0xBC, CHR 0x9A]"

definition skip_marker :: string where
  "skip_marker = [CHR 0xE8, CHR 0xB7, CHR 0xB3, CHR 0xE8, CHR 0xBF, CHR 0x87, CHR 0xEF, CHR 0xBC, CHR 0x9A]"

text \<open>
  \<^verbatim>\<open>main\<close> joins the messages (\<^verbatim>\<open>strings.Join(logMessages, "")\<close>) and counts in the
  joined text.
\<close>

definition successCount :: "string list \<Rightarrow> nat" where
  "successCount logMessages = Count (concat logMessages) created_marker"

definition errorCount :: "string list \<Rightarrow> nat" where
  "errorCount logMessages =
     Count (concat logMessages) error_marker + Count (concat logMessages) skip_marker"

text \<open>
  The variable texts of an entry, and the classes of entries the summary is about:
  created, skipped, failed creation, and the two errors about the root. \<open>isSkipOrFailure\<close>
  is the skip/failure bucket as the specification lists it. A text is \<open>plain\<close> when none
  of the three counted strings occurs in it.
\<close>

fun texts :: "entry \<Rightarrow> string list" where
  "texts EmptyRootPath = []"
| "texts (RootMissing p) = [p]"
| "texts (RootCreateFailed p r) = [p, r]"
| "texts (RootCreated p) = [p]"
| "texts SkippedEmptyName = []"
| "texts (PrefixApplied d n) = [d, n]"
| "texts (SkippedIllegalChars n) = [n]"
| "texts (SkippedPathTooLong p) = [p]"
| "texts (AlreadyExists p) = [p]"
| "texts (PermissionDenied p) = [p]"
| "texts (OtherError p r) = [p, r]"
| "texts (Created p) = [p]"

fun isCreated :: "entry \<Rightarrow> bool" where
  "isCreated (Created p) = True"
| "isCreated _ = False"

fun isRootError :: "entry \<Rightarrow> bool" where
  "isRootError EmptyRootPath = True"
| "isRootError (RootCreateFailed p r) = True"
| "isRootError _ = False"

fun isSkipped :: "entry \<Rightarrow> bool" where
  "isSkipped SkippedEmptyName = True"
| "isSkipped (SkippedIllegalChars n) = True"
| "isSkipped (SkippedPathTooLong p) = True"
| "isSkipped _ = False"

fun isCreateFailure :: "entry \<Rightarrow> bool" where
  "isCreateFailure (PermissionDenied p) = True"
| "isCreateFailure (OtherError p r) = True"
| "isCreateFailure _ = False"

definition isSkipOrFailure :: "entry \<Rightarrow> bool" where
  "isSkipOrFailure e = (isSkipped e \<or> isCreateFailure e)"

definition plain :: "string \<Rightarrow> bool" where
  "plain s = (\<not> contains s created_marker \<and> \<not> contains s error_marker
              \<and> \<not> contains s skip_marker)"

definition plain_log :: "entry list \<Rightarrow> bool" where
  "plain_log es = list_all (\<lambda>e. list_all plain (texts e)) es"

text \<open>A directory name that is the third counted string.\<close>

definition skip_name :: string where
  "skip_name = [CHR 0xE8, CHR 0xB7, CHR 0xB3, CHR 0xE8, CHR 0xBF, CHR 0x87, CHR 0xEF, CHR 0xBC, CHR 0x9A]"

section \<open>One iteration of the loop\<close>

lemma loop_node:
  "createDirs_loop P basePath ((dir, subDirs) # rest) en prefix fs =
     (if dir = [] then
        (SkippedEmptyName # fst (createDirs_loop P basePath rest en prefix fs),
         snd (createDirs_loop P basePath rest en prefix fs))
      else if containsAny (finalName en prefix dir) illegalChars then
        (prefixNote en prefix dir @ SkippedIllegalChars (finalName en prefix dir)
           # fst (createDirs_loop P basePath rest en prefix fs),
         snd (createDirs_loop P basePath rest en prefix fs))
      else if windows P \<and> 260 < length (join P basePath (finalName en prefix dir)) then
        (prefixNote en prefix dir
           @ SkippedPathTooLong (join P basePath (finalName en prefix dir))
           # fst (createDirs_loop P basePath rest en prefix fs),
         snd (createDirs_loop P basePath rest en prefix fs))
      else
        (let fullPath = join P basePath (finalName en prefix dir);
             made = mkdirAll P fs fullPath;
             sub = descend P fullPath subDirs en prefix (snd made);
             more = createDirs_loop P basePath rest en prefix (snd sub)
         in (prefixNote en prefix dir @ outcome (fst made) fullPath # fst sub @ fst more,
             snd more)))"
proof (cases "dir = []")
  case True
  then show ?thesis by (simp add: case_prod_beta)
next
  case nonempty: False
  show ?thesis
  proof (cases "containsAny (finalName en prefix dir) illegalChars")
    case True
    with nonempty show ?thesis
      by (cases "en \<and> prefix \<noteq> []")
        (auto simp: finalName_def prefixNote_def Let_def case_prod_beta)
  next
    case legal: False
    show ?thesis
    proof (cases "windows P \<and> 260 < length (join P basePath (finalName en prefix dir))")
      case True
      with nonempty legal show ?thesis
        by (cases "en \<and> prefix \<noteq> []")
          (auto simp: finalName_def prefixNote_def Let_def case_prod_beta)
    next
      case short: False
      obtain r fs1
        where made: "mkdirAll P fs (join P basePath (finalName en prefix dir)) = (r, fs1)"
        by (cases "mkdirAll P fs (join P basePath (finalName en prefix dir))")
      show ?thesis
      proof (cases r)
        case None
        with nonempty legal short made show ?thesis
          by (cases subDirs; cases "en \<and> prefix \<noteq> []")
            (auto simp: finalName_def prefixNote_def descend_def Let_def case_prod_beta)
      next
        case (Some err)
        with nonempty legal short made show ?thesis
          by (cases subDirs; cases "kind_of err"; cases "en \<and> prefix \<noteq> []")
            (auto simp: finalName_def prefixNote_def descend_def Let_def case_prod_beta)
      qed
    qed
  qed
qed

text \<open>With a root that is not empty and exists, \<open>createDirs\<close> is its loop.\<close>

lemma createDirs_from_loop:
  "createDirs_loop P basePath struct en prefix fs = result \<Longrightarrow>
   basePath \<noteq> [] \<and> \<not> stat_notexist P fs basePath \<Longrightarrow>
   createDirs P basePath struct en prefix fs = result"
  by (simp del: createDirs_loop.simps)

text \<open>
  An entry of a log of \<open>createDirs\<close> is one of its entries about the root, or an entry
  of its loop.
\<close>

lemma createDirs_entries:
  assumes "e \<in> set (fst (createDirs P base t en prefix fs))"
  shows "e \<in> {EmptyRootPath, RootMissing base, RootCreated base}
         \<or> (\<exists>r. e = RootCreateFailed base r)
         \<or> (\<exists>fs'. e \<in> set (fst (createDirs_loop P base t en prefix fs')))"
proof (cases "base = []")
  case True
  with assms show ?thesis by simp
next
  case ne: False
  show ?thesis
  proof (cases "stat_notexist P fs base")
    case False
    with ne assms show ?thesis by auto
  next
    case True
    obtain r fs1 where m: "mkdirAll P fs base = (r, fs1)"
      by (cases "mkdirAll P fs base")
    show ?thesis
    proof (cases r)
      case None
      with ne True m assms show ?thesis
        by (auto simp: case_prod_beta)
    next
      case (Some err)
      with ne True m assms show ?thesis
        by auto
    qed
  qed
qed

text \<open>
  The loop visits the names one after the other, each in the state the one before has
  left: every node of a level stands at the head of the names still to visit when its
  turn comes. The statements below about the node at the head therefore hold for a node
  at any position, and, the state and the root path being arbitrary, at any depth.
\<close>

lemma createDirs_loop_append:
  "createDirs_loop P basePath (before @ after) en prefix fs =
     (fst (createDirs_loop P basePath before en prefix fs)
        @ fst (createDirs_loop P basePath after en prefix
                 (snd (createDirs_loop P basePath before en prefix fs))),
      snd (createDirs_loop P basePath after en prefix
             (snd (createDirs_loop P basePath before en prefix fs))))"
proof (induction before arbitrary: fs)
  case Nil
  show ?case by simp
next
  case (Cons node before)
  obtain dir subDirs where node: "node = (dir, subDirs)"
    by (cases node)
  show ?case
    unfolding node append_Cons
    by (simp add: loop_node [of P basePath dir subDirs "before @ after"]
          loop_node [of P basePath dir subDirs before] Cons.IH Let_def
          del: createDirs_loop.simps)
qed

section \<open>Empty root path\<close>

text \<open>
  C7. For every tree and policy, \<open>createDirs\<close> called with an empty root path returns a
  log of exactly one entry, \<open>EmptyRootPath\<close>, and performs no directory creation: on
  every platform, whatever its \<open>mkdirAll\<close> would do, the file-system state comes back
  unchanged.
\<close>

theorem createDirs_empty_root:
  "createDirs P [] struct enablePrefix prefix fs = ([EmptyRootPath], fs)"
  by simp

section \<open>Names with reserved characters\<close>

lemma containsAny_append:
  "containsAny (a @ b) chars = (containsAny a chars \<or> containsAny b chars)"
  by (auto simp: containsAny_def)

text \<open>
  C5. A name containing any of the characters \<^verbatim>\<open>< > : " | ? *\<close> is skipped with no
  recursion into its branch: when the loop comes to such a name, it emits the
  \<open>PrefixApplied\<close> entry if the prefix policy applies, then \<open>SkippedIllegalChars\<close> with
  the final name, and goes on to the remaining names in the file-system state it
  started from; the node's children occur nowhere in the result. So does \<open>createDirs\<close>
  for the first name it visits, with a root that is not empty and exists. For the tree
  \<^verbatim>\<open>{"a<b": {"child": null}}\<close> the log is the one \<open>SkippedIllegalChars\<close> entry for
  \<^verbatim>\<open>a<b\<close> (after the \<open>PrefixApplied\<close> entry, with a prefix), nothing refers to
  \<^verbatim>\<open>child\<close>, and nothing is created.
\<close>

theorem illegal_name_skipped:
  assumes "containsAny dir illegalChars"
  shows "createDirs_loop P basePath ((dir, subDirs) # rest) en prefix fs =
           (prefixNote en prefix dir @ SkippedIllegalChars (finalName en prefix dir)
              # fst (createDirs_loop P basePath rest en prefix fs),
            snd (createDirs_loop P basePath rest en prefix fs))
       \<and> (basePath \<noteq> [] \<and> \<not> stat_notexist P fs basePath \<longrightarrow>
            createDirs P basePath ((dir, subDirs) # rest) en prefix fs =
              (prefixNote en prefix dir @ SkippedIllegalChars (finalName en prefix dir)
                 # fst (createDirs_loop P basePath rest en prefix fs),
               snd (createDirs_loop P basePath rest en prefix fs)))"
proof -
  from assms have "dir \<noteq> []"
    by (auto simp: containsAny_def)
  moreover from assms have "containsAny (finalName en prefix dir) illegalChars"
    by (simp add: finalName_def containsAny_append)
  ultimately
  have loop: "createDirs_loop P basePath ((dir, subDirs) # rest) en prefix fs =
           (prefixNote en prefix dir @ SkippedIllegalChars (finalName en prefix dir)
              # fst (createDirs_loop P basePath rest en prefix fs),
            snd (createDirs_loop P basePath rest en prefix fs))"
    by (simp only: loop_node if_True if_False)
  show ?thesis
  proof (intro conjI impI)
    show "createDirs_loop P basePath ((dir, subDirs) # rest) en prefix fs =
           (prefixNote en prefix dir @ SkippedIllegalChars (finalName en prefix dir)
              # fst (createDirs_loop P basePath rest en prefix fs),
            snd (createDirs_loop P basePath rest en prefix fs))"
      by (rule loop)
  next
    assume "basePath \<noteq> [] \<and> \<not> stat_notexist P fs basePath"
    with loop show "createDirs P basePath ((dir, subDirs) # rest) en prefix fs =
           (prefixNote en prefix dir @ SkippedIllegalChars (finalName en prefix dir)
              # fst (createDirs_loop P basePath rest en prefix fs),
            snd (createDirs_loop P basePath rest en prefix fs))"
      by (rule createDirs_from_loop)
  qed
qed

theorem illegal_name_skipped_witness:
  "createDirs posix ''/r'' [(''a<b'', Map [(''child'', Null)])] False [] only_r
     = ([SkippedIllegalChars ''a<b''], only_r)
   \<and> createDirs posix ''/r'' [(''a<b'', Map [(''child'', Null)])] True ''X_'' only_r
     = ([PrefixApplied ''a<b'' ''X_a<b'', SkippedIllegalChars ''X_a<b''], only_r)"
proof -
  have root: "''/r'' \<noteq> [] \<and> \<not> stat_notexist posix only_r ''/r''"
    by code_simp
  have bad: "containsAny ''a<b'' illegalChars"
    by code_simp
  have off: "prefixNote False [] ''a<b'' = []" "finalName False [] ''a<b'' = ''a<b''"
    and on: "prefixNote True ''X_'' ''a<b'' = [PrefixApplied ''a<b'' ''X_a<b'']"
      "finalName True ''X_'' ''a<b'' = ''X_a<b''"
    by (simp_all add: prefixNote_def finalName_def)
  from illegal_name_skipped [OF bad, of posix "''/r''" "Map [(''child'', Null)]" "[]" False "[]" only_r]
    root
  have "createDirs posix ''/r'' [(''a<b'', Map [(''child'', Null)])] False [] only_r =
          (prefixNote False [] ''a<b'' @ SkippedIllegalChars (finalName False [] ''a<b'')
             # fst (createDirs_loop posix ''/r'' [] False [] only_r),
           snd (createDirs_loop posix ''/r'' [] False [] only_r))"
    by blast
  then have 1: "createDirs posix ''/r'' [(''a<b'', Map [(''child'', Null)])] False [] only_r
                  = ([SkippedIllegalChars ''a<b''], only_r)"
    by (simp only: off createDirs_loop.simps fst_conv snd_conv append_Nil)
  from illegal_name_skipped [OF bad, of posix "''/r''" "Map [(''child'', Null)]" "[]" True "''X_''" only_r]
    root
  have "createDirs posix ''/r'' [(''a<b'', Map [(''child'', Null)])] True ''X_'' only_r =
          (prefixNote True ''X_'' ''a<b'' @ SkippedIllegalChars (finalName True ''X_'' ''a<b'')
             # fst (createDirs_loop posix ''/r'' [] True ''X_'' only_r),
           snd (createDirs_loop posix ''/r'' [] True ''X_'' only_r))"
    by blast
  then have 2: "createDirs posix ''/r'' [(''a<b'', Map [(''child'', Null)])] True ''X_'' only_r
     = ([PrefixApplied ''a<b'' ''X_a<b'', SkippedIllegalChars ''X_a<b''], only_r)"
    by (simp only: on createDirs_loop.simps fst_conv snd_conv append_Nil append_Cons)
  from 1 2 show ?thesis by blast
qed

section \<open>Child values that are not mappings\<close>

lemma descend_non_mapping:
  "\<not> isMapping subDirs \<Longrightarrow> descend P fullPath subDirs en prefix fs = ([], fs)"
  by (cases subDirs) (simp_all add: descend_def)

text \<open>
  C10. When the child value of a node is not a mapping (a string, a number, a list, a
  boolean), \<open>createDirs\<close> treats the node exactly as it treats a node whose child value
  is null: the directory for the name is created, no entry is emitted about the value
  and there is no recursion. So when the creation succeeds, the node contributes the
  \<open>PrefixApplied\<close> entry (if the policy applies) and \<open>Created\<close>, and the loop goes on
  from the state that \<open>mkdirAll\<close> returned. \<open>countTotalDirectories\<close> counts the node
  once and ignores the value.
\<close>

theorem non_mapping_child_ignored:
  assumes "\<not> isMapping subDirs"
  shows "createDirs P basePath ((dir, subDirs) # rest) en prefix fs
           = createDirs P basePath ((dir, Null) # rest) en prefix fs
       \<and> createDirs_loop P basePath ((dir, subDirs) # rest) en prefix fs
           = createDirs_loop P basePath ((dir, Null) # rest) en prefix fs
       \<and> countTotalDirectories ((dir, subDirs) # rest) = 1 + countTotalDirectories rest
       \<and> (dir \<noteq> [] \<and> \<not> containsAny (finalName en prefix dir) illegalChars
            \<and> \<not> (windows P \<and> 260 < length (join P basePath (finalName en prefix dir)))
            \<and> mkdirAll P fs (join P basePath (finalName en prefix dir)) = (None, fs1)
          \<longrightarrow> createDirs_loop P basePath ((dir, subDirs) # rest) en prefix fs
                = (prefixNote en prefix dir
                     @ Created (join P basePath (finalName en prefix dir))
                     # fst (createDirs_loop P basePath rest en prefix fs1),
                   snd (createDirs_loop P basePath rest en prefix fs1)))"
proof (intro conjI impI)
  show same: "createDirs_loop P basePath ((dir, subDirs) # rest) en prefix fs'
                = createDirs_loop P basePath ((dir, Null) # rest) en prefix fs'" for fs'
    using assms by (simp only: loop_node descend_non_mapping isMapping.simps not_False_eq_True)
  show "createDirs P basePath ((dir, subDirs) # rest) en prefix fs
          = createDirs P basePath ((dir, Null) # rest) en prefix fs"
    by (simp only: createDirs.simps same)
  show "countTotalDirectories ((dir, subDirs) # rest) = 1 + countTotalDirectories rest"
    using assms by (cases subDirs) simp_all
next
  assume "dir \<noteq> [] \<and> \<not> containsAny (finalName en prefix dir) illegalChars
            \<and> \<not> (windows P \<and> 260 < length (join P basePath (finalName en prefix dir)))
            \<and> mkdirAll P fs (join P basePath (finalName en prefix dir)) = (None, fs1)"
  then show "createDirs_loop P basePath ((dir, subDirs) # rest) en prefix fs
               = (prefixNote en prefix dir
                    @ Created (join P basePath (finalName en prefix dir))
                    # fst (createDirs_loop P basePath rest en prefix fs1),
                  snd (createDirs_loop P basePath rest en prefix fs1))"
    using assms
    by (simp add: loop_node descend_non_mapping Let_def del: createDirs_loop.simps)
qed

theorem non_mapping_child_ignored_witness:
  "createDirs posix ''/r'' [(''a'', Str ''x'')] False [] only_r = ([Created ''/r/a''], with_a)
   \<and> createDirs posix ''/r'' [(''a'', List [Num 1])] False [] only_r
       = createDirs posix ''/r'' [(''a'', Null)] False [] only_r
   \<and> countTotalDirectories [(''a'', Str ''x'')] = 1"
proof -
  have pre: "''a'' \<noteq> []
      \<and> \<not> containsAny (finalName False [] ''a'') illegalChars
      \<and> \<not> (windows posix \<and> 260 < length (join posix ''/r'' (finalName False [] ''a'')))
      \<and> mkdirAll posix only_r (join posix ''/r'' (finalName False [] ''a'')) = (None, with_a)"
    by code_simp
  have root: "''/r'' \<noteq> [] \<and> \<not> stat_notexist posix only_r ''/r''"
    by code_simp
  have vals: "prefixNote False [] ''a'' = []"
    "join posix ''/r'' (finalName False [] ''a'') = ''/r/a''"
    by code_simp+
  have a: "\<not> isMapping (Str ''x'')" and b: "\<not> isMapping (List [Num 1])"
    by simp_all
  from non_mapping_child_ignored [OF a, of posix "''/r''" "''a''" "[]" False "[]" only_r with_a]
    pre
  have "createDirs_loop posix ''/r'' [(''a'', Str ''x'')] False [] only_r
          = (prefixNote False [] ''a''
               @ Created (join posix ''/r'' (finalName False [] ''a''))
               # fst (createDirs_loop posix ''/r'' [] False [] with_a),
             snd (createDirs_loop posix ''/r'' [] False [] with_a))"
    and "countTotalDirectories [(''a'', Str ''x'')] = 1 + countTotalDirectories []"
    by blast+
  then have loop: "createDirs_loop posix ''/r'' [(''a'', Str ''x'')] False [] only_r
               = ([Created ''/r/a''], with_a)"
    and third: "countTotalDirectories [(''a'', Str ''x'')] = 1"
    by (simp_all only: vals createDirs_loop.simps countTotalDirectories.simps
          fst_conv snd_conv append_Nil add_0_right)
  from loop root
  have first: "createDirs posix ''/r'' [(''a'', Str ''x'')] False [] only_r
                 = ([Created ''/r/a''], with_a)"
    by (rule createDirs_from_loop)
  from non_mapping_child_ignored [OF b, of posix "''/r''" "''a''" "[]" False "[]" only_r with_a]
  have second: "createDirs posix ''/r'' [(''a'', List [Num 1])] False [] only_r
                  = createDirs posix ''/r'' [(''a'', Null)] False [] only_r"
    by blast
  from first second third show ?thesis
    by blast
qed

section \<open>A node whose creation fails\<close>

text \<open>
  C1 as stated does not hold. With \<^verbatim>\<open>/r\<close> inaccessible, the creation of \<^verbatim>\<open>/r/a\<close> fails
  with a permission error, and the log still holds an entry for the child path
  \<^verbatim>\<open>/r/a/b\<close>, whose creation was attempted as well.
\<close>

theorem failed_node_children_counterexample:
  "createDirs posix ''/r'' [(''a'', Map [(''b'', Null)])] False [] sealed_r
     = ([PermissionDenied ''/r/a'', PermissionDenied ''/r/a/b''], sealed_r)"
  by code_simp

text \<open>
  C1, amended. When the creation attempt for a node fails with a permission error or
  with any other error that is not already-exists, \<open>createDirs\<close> emits the failure entry
  for that node and then goes on as after a successful creation: if the child value is a
  mapping it calls itself on the children with the node's full path as root path
  (\<open>descend\<close>), and the entries of that call follow the failure entry in the log; then it
  turns to the remaining names.
\<close>

theorem failed_node_still_descends:
  assumes "dir \<noteq> []"
    and "\<not> containsAny (finalName en prefix dir) illegalChars"
    and "fullPath = join P basePath (finalName en prefix dir)"
    and "\<not> (windows P \<and> 260 < length fullPath)"
    and "mkdirAll P fs fullPath = (Some err, fs1)"
    and "kind_of err \<noteq> IsExist"
  shows "createDirs_loop P basePath ((dir, subDirs) # rest) en prefix fs =
           (prefixNote en prefix dir
              @ (if kind_of err = IsPermission then PermissionDenied fullPath
                 else OtherError fullPath (text_of err))
              # fst (descend P fullPath subDirs en prefix fs1)
              @ fst (createDirs_loop P basePath rest en prefix
                       (snd (descend P fullPath subDirs en prefix fs1))),
            snd (createDirs_loop P basePath rest en prefix
                   (snd (descend P fullPath subDirs en prefix fs1))))
       \<and> (basePath \<noteq> [] \<and> \<not> stat_notexist P fs basePath \<longrightarrow>
            createDirs P basePath ((dir, subDirs) # rest) en prefix fs =
              (prefixNote en prefix dir
                 @ (if kind_of err = IsPermission then PermissionDenied fullPath
                    else OtherError fullPath (text_of err))
                 # fst (descend P fullPath subDirs en prefix fs1)
                 @ fst (createDirs_loop P basePath rest en prefix
                          (snd (descend P fullPath subDirs en prefix fs1))),
               snd (createDirs_loop P basePath rest en prefix
                      (snd (descend P fullPath subDirs en prefix fs1)))))"
proof -
  have "outcome (Some err) fullPath =
          (if kind_of err = IsPermission then PermissionDenied fullPath
           else OtherError fullPath (text_of err))"
    using assms(6) by (cases "kind_of err") simp_all
  with assms(1-5)
  have loop: "createDirs_loop P basePath ((dir, subDirs) # rest) en prefix fs =
           (prefixNote en prefix dir
              @ (if kind_of err = IsPermission then PermissionDenied fullPath
                 else OtherError fullPath (text_of err))
              # fst (descend P fullPath subDirs en prefix fs1)
              @ fst (createDirs_loop P basePath rest en prefix
                       (snd (descend P fullPath subDirs en prefix fs1))),
            snd (createDirs_loop P basePath rest en prefix
                   (snd (descend P fullPath subDirs en prefix fs1))))"
    by (simp add: loop_node Let_def del: createDirs_loop.simps outcome.simps)
  show ?thesis
  proof (intro conjI impI)
    show "createDirs_loop P basePath ((dir, subDirs) # rest) en prefix fs =
           (prefixNote en prefix dir
              @ (if kind_of err = IsPermission then PermissionDenied fullPath
                 else OtherError fullPath (text_of err))
              # fst (descend P fullPath subDirs en prefix fs1)
              @ fst (createDirs_loop P basePath rest en prefix
                       (snd (descend P fullPath subDirs en prefix fs1))),
            snd (createDirs_loop P basePath rest en prefix
                   (snd (descend P fullPath subDirs en prefix fs1))))"
      by (rule loop)
  next
    assume "basePath \<noteq> [] \<and> \<not> stat_notexist P fs basePath"
    with loop show "createDirs P basePath ((dir, subDirs) # rest) en prefix fs =
           (prefixNote en prefix dir
              @ (if kind_of err = IsPermission then PermissionDenied fullPath
                 else OtherError fullPath (text_of err))
              # fst (descend P fullPath subDirs en prefix fs1)
              @ fst (createDirs_loop P basePath rest en prefix
                       (snd (descend P fullPath subDirs en prefix fs1))),
            snd (createDirs_loop P basePath rest en prefix
                   (snd (descend P fullPath subDirs en prefix fs1))))"
      by (rule createDirs_from_loop)
  qed
qed

text \<open>
  With \<^verbatim>\<open>/r\<close> read-only the recursive call finds that \<^verbatim>\<open>/r/a\<close> does not exist, tries
  to create it once more and gives up on the children.
\<close>

theorem failed_node_still_descends_witness:
  "createDirs posix ''/r'' [(''a'', Map [(''b'', Null)])] False [] readonly_r
     = ([PermissionDenied ''/r/a'', RootMissing ''/r/a'',
         RootCreateFailed ''/r/a'' ''mkdir /r/a: permission denied''], readonly_r)"
proof -
  let ?err = "OSError IsPermission ''mkdir /r/a: permission denied''"
  have h: "''a'' \<noteq> []" "\<not> containsAny (finalName False [] ''a'') illegalChars"
    "''/r/a'' = join posix ''/r'' (finalName False [] ''a'')"
    "\<not> (windows posix \<and> 260 < length ''/r/a'')"
    "mkdirAll posix readonly_r ''/r/a'' = (Some ?err, readonly_r)"
    "kind_of ?err \<noteq> IsExist"
    by code_simp+
  have root: "''/r'' \<noteq> [] \<and> \<not> stat_notexist posix readonly_r ''/r''"
    by code_simp
  from failed_node_still_descends [OF h, of "Map [(''b'', Null)]" "[]"] root
  have "createDirs posix ''/r'' [(''a'', Map [(''b'', Null)])] False [] readonly_r =
           (prefixNote False [] ''a''
              @ (if kind_of ?err = IsPermission then PermissionDenied ''/r/a''
                 else OtherError ''/r/a'' (text_of ?err))
              # fst (descend posix ''/r/a'' (Map [(''b'', Null)]) False [] readonly_r)
              @ fst (createDirs_loop posix ''/r'' [] False []
                       (snd (descend posix ''/r/a'' (Map [(''b'', Null)]) False []
                               readonly_r))),
            snd (createDirs_loop posix ''/r'' [] False []
                   (snd (descend posix ''/r/a'' (Map [(''b'', Null)]) False []
                           readonly_r))))"
    by blast
  also have "\<dots> = ([PermissionDenied ''/r/a'', RootMissing ''/r/a'',
         RootCreateFailed ''/r/a'' ''mkdir /r/a: permission denied''], readonly_r)"
    by code_simp
  finally show ?thesis .
qed

section \<open>Running twice\<close>

lemma MkdirAll_existing: "stat fs path = None \<Longrightarrow> MkdirAll fs path = (None, fs)"
  by (simp add: MkdirAll.simps)

text \<open>
  In this store, where every path that exists is a directory, \<open>MkdirAll\<close> never fails
  with an error for which \<^verbatim>\<open>os.IsExist\<close> holds, and no run of \<open>createDirs\<close> emits an
  \<open>AlreadyExists\<close> entry.
\<close>

lemma mkdir_EEXIST: "mkdir fs path = (Some EEXIST, fs') \<Longrightarrow> stat fs' path = None"
  by (auto simp: mkdir_def stat_def Let_def split: if_splits)

lemma MkdirAll_not_IsExist:
  "MkdirAll fs path = (Some err, fs') \<Longrightarrow> kind_of err \<noteq> IsExist"
proof (induction fs path arbitrary: err fs' rule: MkdirAll.induct)
  case (1 fs path)
  from "1.prems" obtain e where st: "stat fs path = Some e"
    by (cases "stat fs path") (auto simp: MkdirAll.simps)
  show ?case
  proof (cases "parentOf path \<noteq> []")
    case True
    obtain r fs1 where par: "MkdirAll fs (parentOf path) = (r, fs1)"
      by (cases "MkdirAll fs (parentOf path)")
    show ?thesis
    proof (cases r)
      case (Some perr)
      with "1.prems" st True par have "err = perr"
        by (simp add: MkdirAll.simps [of fs path])
      with "1.IH" [OF st True] par Some show ?thesis by simp
    next
      case None
      with "1.prems" st True par
      have "(case mkdir fs1 path of
               (Some e, fs2) \<Rightarrow> if stat fs2 path = None then (None, fs2)
                                 else (Some (pathError path e), fs2)
             | (None, fs2) \<Rightarrow> (None, fs2)) = (Some err, fs')"
        by (simp add: MkdirAll.simps [of fs path])
      then show ?thesis
        by (auto simp: pathError_def split: prod.splits option.splits if_splits errno.splits
              dest: mkdir_EEXIST)
    qed
  next
    case False
    with "1.prems" st
    have "(case mkdir fs path of
             (Some e, fs2) \<Rightarrow> if stat fs2 path = None then (None, fs2)
                               else (Some (pathError path e), fs2)
           | (None, fs2) \<Rightarrow> (None, fs2)) = (Some err, fs')"
      by (simp add: MkdirAll.simps [of fs path])
    then show ?thesis
      by (auto simp: pathError_def split: prod.splits option.splits if_splits errno.splits
            dest: mkdir_EEXIST)
  qed
qed

lemma posix_outcome_not_AlreadyExists:
  "outcome (fst (mkdirAll posix fs path)) path \<noteq> AlreadyExists p"
proof (cases "MkdirAll fs path")
  case (Pair r fs')
  show ?thesis
  proof (cases r)
    case None
    with Pair show ?thesis by (simp add: posix_def)
  next
    case (Some err)
    with Pair MkdirAll_not_IsExist [of fs path err fs'] show ?thesis
      by (cases "kind_of err") (simp_all add: posix_def)
  qed
qed

lemma loop_never_AlreadyExists:
  "e \<in> set (fst (createDirs_loop posix base t en prefix fs)) \<Longrightarrow> e \<noteq> AlreadyExists p"
proof (induction t arbitrary: base fs e rule: measure_induct_rule [where f = countTotalDirectories])
  case (less t)
  show ?case
  proof (cases t)
    case Nil
    with less.prems show ?thesis by simp
  next
    case (Cons node rest)
    obtain dir subDirs where t: "t = (dir, subDirs) # rest"
      using Cons by (cases node) simp
    let ?full = "join posix base (finalName en prefix dir)"
    have smaller_rest: "countTotalDirectories rest < countTotalDirectories t"
      by (simp add: t)
    have rest_ok: "x \<noteq> AlreadyExists p"
      if "x \<in> set (fst (createDirs_loop posix base rest en prefix fs'))" for x fs'
      using less.IH [OF smaller_rest that] .
    have note_ok: "x \<noteq> AlreadyExists p" if "x \<in> set (prefixNote en prefix dir)" for x
      using that by (auto simp: prefixNote_def split: if_splits)
    have sub_ok: "x \<noteq> AlreadyExists p"
      if x: "x \<in> set (fst (descend posix ?full subDirs en prefix fs'))" for x fs'
    proof (cases subDirs)
      case (Map m)
      from x Map have "x \<in> set (fst (createDirs posix ?full m en prefix fs'))"
        by (simp add: descend_def)
      from createDirs_entries [OF this]
      consider "x \<in> {EmptyRootPath, RootMissing ?full, RootCreated ?full}"
        | r where "x = RootCreateFailed ?full r"
        | fs'' where "x \<in> set (fst (createDirs_loop posix ?full m en prefix fs''))"
        by blast
      then show ?thesis
      proof cases
        case 3
        have "countTotalDirectories m < countTotalDirectories t"
          by (simp add: t Map)
        from less.IH [OF this 3] show ?thesis .
      qed auto
    qed (use x in \<open>simp_all add: descend_def\<close>)
    from less.prems
    have "e = SkippedEmptyName
          \<or> e \<in> set (prefixNote en prefix dir)
          \<or> e = SkippedIllegalChars (finalName en prefix dir)
          \<or> e = SkippedPathTooLong ?full
          \<or> e = outcome (fst (mkdirAll posix fs ?full)) ?full
          \<or> e \<in> set (fst (descend posix ?full subDirs en prefix (snd (mkdirAll posix fs ?full))))
          \<or> (\<exists>fs'. e \<in> set (fst (createDirs_loop posix base rest en prefix fs')))"
      unfolding t
      by (auto simp add: loop_node Let_def simp del: createDirs_loop.simps split: if_splits)
    then show ?thesis
      using posix_outcome_not_AlreadyExists [of fs ?full p]
      by (auto dest: rest_ok note_ok sub_ok)
  qed
qed

lemma posix_never_AlreadyExists:
  assumes "e \<in> set (fst (createDirs posix basePath t en prefix fs))"
  shows "e \<noteq> AlreadyExists p"
  using createDirs_entries [OF assms] loop_never_AlreadyExists [of e basePath t en prefix _ p]
  by blast


text \<open>
  A run only adds directories to the store, and a directory that the first run has
  created is found by \<^verbatim>\<open>Stat\<close> in the second: every node that a run reports as
  \<open>Created\<close> is reported as \<open>Created\<close> again by a second run that starts from the store
  the first one left.
\<close>

lemma grows_refl: "grows fs fs"
  by (simp add: grows_def)

lemma grows_trans: "grows a b \<Longrightarrow> grows b c \<Longrightarrow> grows a c"
  by (auto simp: grows_def)

lemma mkdir_grows: "mkdir fs path = (r, fs') \<Longrightarrow> grows fs fs'"
  by (auto simp: mkdir_def grows_def Let_def split: if_splits)

lemma MkdirAll_grows: "MkdirAll fs path = (r, fs') \<Longrightarrow> grows fs fs'"
proof (induction fs path arbitrary: r fs' rule: MkdirAll.induct)
  case (1 fs path)
  show ?case
  proof (cases "stat fs path")
    case None
    with "1.prems" show ?thesis by (simp add: MkdirAll.simps [of fs path] grows_refl)
  next
    case (Some e)
    obtain pr fs1 where par:
      "(if parentOf path \<noteq> [] then MkdirAll fs (parentOf path) else (None, fs)) = (pr, fs1)"
      by (cases "if parentOf path \<noteq> [] then MkdirAll fs (parentOf path) else (None, fs)")
    have g1: "grows fs fs1"
    proof (cases "parentOf path \<noteq> []")
      case True
      with par "1.IH" [OF Some True] show ?thesis by simp
    next
      case False
      with par show ?thesis by (simp add: grows_refl)
    qed
    show ?thesis
    proof (cases pr)
      case (Some perr)
      with "1.prems" \<open>stat fs path = Some e\<close> par have "fs' = fs1"
        by (simp add: MkdirAll.simps [of fs path])
      with g1 show ?thesis by simp
    next
      case None
      obtain mr fs2 where mk: "mkdir fs1 path = (mr, fs2)"
        by (cases "mkdir fs1 path")
      with "1.prems" \<open>stat fs path = Some e\<close> par None have "fs' = fs2"
        by (cases mr) (auto simp: MkdirAll.simps [of fs path] split: if_splits)
      with g1 mkdir_grows [OF mk] show ?thesis by (auto intro: grows_trans)
    qed
  qed
qed

lemma blocked_grows: "grows fs fs' \<Longrightarrow> blocked fs' cs = blocked fs cs"
  by (simp add: blocked_def grows_def)

lemma stat_grows_None: "grows fs fs' \<Longrightarrow> stat fs path = None \<Longrightarrow> stat fs' path = None"
  by (auto simp: stat_def blocked_grows isDir_def grows_def split: if_splits)

lemma stat_grows_exists:
  "grows fs fs' \<Longrightarrow> stat fs path \<noteq> Some ENOENT \<Longrightarrow> stat fs' path \<noteq> Some ENOENT"
  by (auto simp: stat_def blocked_grows isDir_def grows_def split: if_splits)

lemma mkdir_ok_stat: "mkdir fs path = (None, fs') \<Longrightarrow> stat fs' path = None"
  by (auto simp: mkdir_def stat_def blocked_def isDir_def Let_def split: if_splits)

lemma MkdirAll_ok_stat: "MkdirAll fs path = (None, fs') \<Longrightarrow> stat fs' path = None"
proof (cases "stat fs path")
  case None
  assume "MkdirAll fs path = (None, fs')"
  with None show ?thesis by (simp add: MkdirAll.simps [of fs path])
next
  case (Some e)
  assume a: "MkdirAll fs path = (None, fs')"
  obtain pr fs1 where par:
    "(if parentOf path \<noteq> [] then MkdirAll fs (parentOf path) else (None, fs)) = (pr, fs1)"
    by (cases "if parentOf path \<noteq> [] then MkdirAll fs (parentOf path) else (None, fs)")
  obtain mr fs2 where mk: "mkdir fs1 path = (mr, fs2)"
    by (cases "mkdir fs1 path")
  from a Some par mk show ?thesis
    by (cases pr; cases mr)
      (auto simp: MkdirAll.simps [of fs path] dest: mkdir_ok_stat split: if_splits)
qed


lemma posix_fields:
  "mkdirAll posix = MkdirAll" "join posix = Join" "windows posix = False"
  "stat_notexist posix fs path = (stat fs path = Some ENOENT)"
  by (simp_all add: posix_def)

lemma createDirs_posix_grows_aux:
  assumes loop: "\<And>fs. grows fs (snd (createDirs_loop posix base t en prefix fs))"
  shows "grows fs (snd (createDirs posix base t en prefix fs))"
proof (cases "base = [] \<or> \<not> stat_notexist posix fs base")
  case True
  then show ?thesis using loop by (auto simp: grows_refl)
next
  case False
  obtain r fs1 where m: "MkdirAll fs base = (r, fs1)"
    by (cases "MkdirAll fs base")
  from False m show ?thesis
    using MkdirAll_grows [OF m] loop [of fs1]
    by (cases r) (auto simp: posix_fields case_prod_beta intro: grows_trans)
qed

lemma loop_posix_grows:
  "grows fs (snd (createDirs_loop posix base t en prefix fs))"
proof (induction t arbitrary: base fs rule: measure_induct_rule [where f = countTotalDirectories])
  case (less t)
  show ?case
  proof (cases t)
    case Nil
    then show ?thesis by (simp add: grows_refl)
  next
    case (Cons node rest)
    obtain dir subDirs where t: "t = (dir, subDirs) # rest"
      using Cons by (cases node) simp
    let ?full = "join posix base (finalName en prefix dir)"
    have rest_ok: "grows fs' (snd (createDirs_loop posix base rest en prefix fs'))" for fs'
      by (rule less.IH) (simp add: t)
    have sub_ok: "grows fs' (snd (descend posix ?full subDirs en prefix fs'))" for fs'
    proof (cases subDirs)
      case (Map m)
      have "grows fs'' (snd (createDirs_loop posix ?full m en prefix fs''))" for fs''
        by (rule less.IH) (simp add: t Map)
      then have "grows fs' (snd (createDirs posix ?full m en prefix fs'))"
        by (rule createDirs_posix_grows_aux)
      then show ?thesis by (simp add: descend_def Map)
    qed (simp_all add: descend_def grows_refl)
    have made_ok: "grows fs (snd (mkdirAll posix fs ?full))"
      using MkdirAll_grows [of fs ?full] by (cases "MkdirAll fs ?full") (simp add: posix_fields)
    show ?thesis
      unfolding t
      using rest_ok [of fs] made_ok sub_ok [of "snd (mkdirAll posix fs ?full)"]
        rest_ok [of "snd (descend posix ?full subDirs en prefix (snd (mkdirAll posix fs ?full)))"]
      by (auto simp add: loop_node Let_def simp del: createDirs_loop.simps intro: grows_trans)
  qed
qed

lemma createDirs_posix_grows: "grows fs (snd (createDirs posix base t en prefix fs))"
  by (rule createDirs_posix_grows_aux) (rule loop_posix_grows)

lemma descend_posix_grows: "grows fs (snd (descend posix full subDirs en prefix fs))"
  by (cases subDirs)
    (simp_all add: descend_def grows_refl createDirs_posix_grows del: createDirs.simps)


lemma createDirs_posix_created_aux:
  assumes loop: "\<And>fs fs2. Created p \<in> set (fst (createDirs_loop posix base t en prefix fs)) \<Longrightarrow>
                   grows (snd (createDirs_loop posix base t en prefix fs)) fs2 \<Longrightarrow>
                   Created p \<in> set (fst (createDirs_loop posix base t en prefix fs2))"
    and mem: "Created p \<in> set (fst (createDirs posix base t en prefix fs))"
    and g: "grows (snd (createDirs posix base t en prefix fs)) fs2"
  shows "Created p \<in> set (fst (createDirs posix base t en prefix fs2))"
proof (cases "base = []")
  case True
  with mem show ?thesis by simp
next
  case ne: False
  show ?thesis
  proof (cases "stat fs base = Some ENOENT")
    case False
    with ne mem g
    have m1: "Created p \<in> set (fst (createDirs_loop posix base t en prefix fs))"
      and g1: "grows (snd (createDirs_loop posix base t en prefix fs)) fs2"
      by (simp_all add: posix_fields)
    from False have "stat fs2 base \<noteq> Some ENOENT"
      using stat_grows_exists [OF grows_trans [OF loop_posix_grows g1]] by blast
    with ne loop [OF m1 g1] show ?thesis
      by (simp add: posix_fields)
  next
    case True
    obtain r fs1 where m: "MkdirAll fs base = (r, fs1)"
      by (cases "MkdirAll fs base")
    show ?thesis
    proof (cases r)
      case (Some err)
      with ne True m mem show ?thesis
        by (simp add: posix_fields)
    next
      case None
      with ne True m mem g
      have m1: "Created p \<in> set (fst (createDirs_loop posix base t en prefix fs1))"
        and g1: "grows (snd (createDirs_loop posix base t en prefix fs1)) fs2"
        by (simp_all add: posix_fields case_prod_beta)
      from m None have "stat fs1 base = None"
        by (simp add: MkdirAll_ok_stat)
      then have "stat fs2 base = None"
        using stat_grows_None [OF grows_trans [OF loop_posix_grows g1]] by blast
      with ne loop [OF m1 g1] show ?thesis
        by (simp add: posix_fields)
    qed
  qed
qed

lemma loop_posix_created_again:
  "Created p \<in> set (fst (createDirs_loop posix base t en prefix fs)) \<Longrightarrow>
   grows (snd (createDirs_loop posix base t en prefix fs)) fs2 \<Longrightarrow>
   Created p \<in> set (fst (createDirs_loop posix base t en prefix fs2))"
proof (induction t arbitrary: base fs fs2 rule: measure_induct_rule [where f = countTotalDirectories])
  case (less t)
  show ?case
  proof (cases t)
    case Nil
    with less.prems show ?thesis by simp
  next
    case (Cons node rest)
    obtain dir subDirs where t: "t = (dir, subDirs) # rest"
      using Cons by (cases node) simp
    let ?full = "join posix base (finalName en prefix dir)"
    have smaller_rest: "countTotalDirectories rest < countTotalDirectories t"
      by (simp add: t)
    note rest_again = less.IH [OF smaller_rest]
    have sub_again: "Created p \<in> set (fst (descend posix ?full subDirs en prefix s2))"
      if "Created p \<in> set (fst (descend posix ?full subDirs en prefix s1))"
        and "grows (snd (descend posix ?full subDirs en prefix s1)) s2" for s1 s2
    proof (cases subDirs)
      case (Map m)
      have smaller: "countTotalDirectories m < countTotalDirectories t"
        by (simp add: t Map)
      have "Created p \<in> set (fst (createDirs posix ?full m en prefix s2))"
      proof (rule createDirs_posix_created_aux)
        show "Created p \<in> set (fst (createDirs posix ?full m en prefix s1))"
          using that(1) by (simp add: descend_def Map)
        show "grows (snd (createDirs posix ?full m en prefix s1)) s2"
          using that(2) by (simp add: descend_def Map)
      qed (rule less.IH [OF smaller])
      then show ?thesis by (simp add: descend_def Map)
    qed (use that in \<open>simp_all add: descend_def\<close>)
    have not_note: "Created p \<notin> set (prefixNote en prefix dir)"
      by (simp add: prefixNote_def)
    from less.prems(1)
    have mem: "Created p \<in> set (fst (createDirs_loop posix base ((dir, subDirs) # rest) en prefix fs))"
      by (simp only: t)
    from less.prems(2)
    have g: "grows (snd (createDirs_loop posix base ((dir, subDirs) # rest) en prefix fs)) fs2"
      by (simp only: t)
    consider (skip) "dir = [] \<or> containsAny (finalName en prefix dir) illegalChars
                      \<or> (windows posix \<and> 260 < length ?full)"
      | (make) "dir \<noteq> []" "\<not> containsAny (finalName en prefix dir) illegalChars"
          "\<not> (windows posix \<and> 260 < length ?full)"
      by blast
    then have "Created p \<in> set (fst (createDirs_loop posix base ((dir, subDirs) # rest) en prefix fs2))"
    proof cases
      case skip
      with mem not_note
      have m1: "Created p \<in> set (fst (createDirs_loop posix base rest en prefix fs))"
        by (auto simp add: loop_node simp del: createDirs_loop.simps split: if_splits)
      from skip g
      have g1: "grows (snd (createDirs_loop posix base rest en prefix fs)) fs2"
        by (auto simp add: loop_node simp del: createDirs_loop.simps split: if_splits)
      from rest_again [OF m1 g1] skip show ?thesis
        by (auto simp add: loop_node simp del: createDirs_loop.simps)
    next
      case make
      obtain r1 s1 where made1: "MkdirAll fs ?full = (r1, s1)"
        by (cases "MkdirAll fs ?full")
      obtain r2 t1 where made2: "MkdirAll fs2 ?full = (r2, t1)"
        by (cases "MkdirAll fs2 ?full")
      let ?s2 = "snd (descend posix ?full subDirs en prefix s1)"
      let ?s3 = "snd (createDirs_loop posix base rest en prefix ?s2)"
      let ?t2 = "snd (descend posix ?full subDirs en prefix t1)"
      from make made1
      have log1: "fst (createDirs_loop posix base ((dir, subDirs) # rest) en prefix fs)
                    = prefixNote en prefix dir @ outcome r1 ?full
                        # fst (descend posix ?full subDirs en prefix s1)
                        @ fst (createDirs_loop posix base rest en prefix ?s2)"
        and fin1: "snd (createDirs_loop posix base ((dir, subDirs) # rest) en prefix fs) = ?s3"
        by (simp_all add: loop_node Let_def posix_fields del: createDirs_loop.simps)
      from make made2
      have log2: "fst (createDirs_loop posix base ((dir, subDirs) # rest) en prefix fs2)
                    = prefixNote en prefix dir @ outcome r2 ?full
                        # fst (descend posix ?full subDirs en prefix t1)
                        @ fst (createDirs_loop posix base rest en prefix ?t2)"
        by (simp add: loop_node Let_def posix_fields del: createDirs_loop.simps)
      have g_s1_s2: "grows s1 ?s2" by (rule descend_posix_grows)
      have g_s2_s3: "grows ?s2 ?s3" by (rule loop_posix_grows)
      have g_s3_fs2: "grows ?s3 fs2" using g fin1 by simp
      have g_fs2_t1: "grows fs2 t1" using made2 by (rule MkdirAll_grows)
      have g_t1_t2: "grows t1 ?t2" by (rule descend_posix_grows)
      from mem log1 not_note
      consider (here) "Created p = outcome r1 ?full"
        | (below) "Created p \<in> set (fst (descend posix ?full subDirs en prefix s1))"
        | (later) "Created p \<in> set (fst (createDirs_loop posix base rest en prefix ?s2))"
        by auto
      then show ?thesis
      proof cases
        case here
        then have r1: "r1 = None" and p: "p = ?full"
          by (cases r1; simp split: errkind.splits)+
        from made1 r1 have "stat s1 ?full = None"
          by (simp add: MkdirAll_ok_stat)
        then have "stat fs2 ?full = None"
          using grows_trans [OF g_s1_s2 grows_trans [OF g_s2_s3 g_s3_fs2]]
          by (rule stat_grows_None [rotated])
        then have "MkdirAll fs2 ?full = (None, fs2)"
          by (simp add: MkdirAll.simps [of fs2 ?full])
        with made2 have "r2 = None" by simp
        with log2 p show ?thesis by simp
      next
        case below
        have "grows ?s2 t1"
          using g_s2_s3 g_s3_fs2 g_fs2_t1 by (blast intro: grows_trans)
        from sub_again [OF below this] log2 show ?thesis by simp
      next
        case later
        have "grows ?s3 ?t2"
          using g_s3_fs2 g_fs2_t1 g_t1_t2 by (blast intro: grows_trans)
        from rest_again [OF later this] log2 show ?thesis by simp
      qed
    qed
    then show ?thesis by (simp only: t)
  qed
qed

lemma posix_rerun_created_again:
  assumes "Created p \<in> set (fst (createDirs posix basePath t en prefix fs))"
  shows "Created p \<in> set (fst (createDirs posix basePath t en prefix
                                  (snd (createDirs posix basePath t en prefix fs))))"
  using loop_posix_created_again assms grows_refl
  by (rule createDirs_posix_created_aux)


text \<open>
  C2 fails on the code. \<^verbatim>\<open>os.MkdirAll\<close> returns \<^verbatim>\<open>nil\<close> for a directory that exists
  (\<open>MkdirAll_existing\<close>), so the \<^verbatim>\<open>os.IsExist\<close> branch of \<open>createDirs\<close> is not taken on
  a second run (\<open>posix_never_AlreadyExists\<close>), and what the first run created is
  reported as created again (\<open>posix_rerun_created_again\<close>). Starting from a store where
  neither target exists, the first run creates \<^verbatim>\<open>/r/a\<close> and \<^verbatim>\<open>/r/a/b\<close>, and the second
  run, from the store the first one left, reports both as \<open>Created\<close> again and emits
  no \<open>AlreadyExists\<close> entry.
\<close>

theorem rerun_reports_created:
  "createDirs posix ''/r'' [(''a'', Map [(''b'', Null)])] False [] only_r
     = ([Created ''/r/a'', Created ''/r/a/b''], with_a_b)
   \<and> createDirs posix ''/r'' [(''a'', Map [(''b'', Null)])] False [] with_a_b
     = ([Created ''/r/a'', Created ''/r/a/b''], with_a_b)"
  by code_simp

section \<open>Counting nodes\<close>

text \<open>
  C9. For every tree, \<open>countTotalDirectories\<close> is the number of (name, children) pairs
  at all depths of the tree. Every key counts once whatever its name (empty, with
  reserved characters) and whatever would happen to it in \<open>createDirs\<close>; the function
  takes the tree alone, no platform and no file-system state.
\<close>

theorem count_is_number_of_nodes:
  "countTotalDirectories t = length (all_nodes t)"
  by (induction t rule: countTotalDirectories.induct) (simp_all split: jvalue.split)

section \<open>The prefix policy\<close>

lemma uses_names_rest:
  "uses_names j f base rest e \<Longrightarrow> uses_names j f base ((name, children) # rest) e"
  by (cases e) auto

lemma uses_names_child:
  "uses_names j f (j base (f name)) m e \<Longrightarrow> uses_names j f base ((name, Map m) # rest) e"
  by (cases e) auto

lemma loop_uses_names:
  "e \<in> set (fst (createDirs_loop P base t en prefix fs)) \<Longrightarrow>
   uses_names (join P) (finalName en prefix) base t e
   \<and> ((\<exists>d n. e = PrefixApplied d n) \<longrightarrow> en \<and> prefix \<noteq> [])"
proof (induction t arbitrary: base fs e rule: measure_induct_rule [where f = countTotalDirectories])
  case (less t)
  show ?case
  proof (cases t)
    case Nil
    with less.prems show ?thesis by simp
  next
    case (Cons node rest)
    obtain dir subDirs where node: "node = (dir, subDirs)"
      by (cases node)
    let ?f = "finalName en prefix"
    let ?full = "join P base (?f dir)"
    have t: "t = (dir, subDirs) # rest" using Cons node by simp
    have smaller_rest: "countTotalDirectories rest < countTotalDirectories t"
      by (simp add: t)
    have rest_ok: "uses_names (join P) ?f base t x \<and> ((\<exists>d n. x = PrefixApplied d n) \<longrightarrow> en \<and> prefix \<noteq> [])"
      if "x \<in> set (fst (createDirs_loop P base rest en prefix fs'))" for x fs'
      using less.IH [OF smaller_rest that] by (auto simp: t intro: uses_names_rest)
    have note_ok: "uses_names (join P) ?f base t x \<and> ((\<exists>d n. x = PrefixApplied d n) \<longrightarrow> en \<and> prefix \<noteq> [])"
      if "x \<in> set (prefixNote en prefix dir)" for x
      using that by (auto simp: prefixNote_def finalName_def t split: if_splits)
    have sub_ok: "uses_names (join P) ?f base t x \<and> ((\<exists>d n. x = PrefixApplied d n) \<longrightarrow> en \<and> prefix \<noteq> [])"
      if x: "x \<in> set (fst (descend P ?full subDirs en prefix fs'))" for x fs'
    proof (cases subDirs)
      case (Map m)
      have smaller: "countTotalDirectories m < countTotalDirectories t"
        by (simp add: t Map)
      from x Map have "x \<in> set (fst (createDirs P ?full m en prefix fs'))"
        by (simp add: descend_def)
      from createDirs_entries [OF this]
      consider "x \<in> {EmptyRootPath, RootMissing ?full, RootCreated ?full}"
        | r where "x = RootCreateFailed ?full r"
        | fs'' where "x \<in> set (fst (createDirs_loop P ?full m en prefix fs''))"
        by blast
      then show ?thesis
      proof cases
        case 1
        then show ?thesis by (auto simp: t Map)
      next
        case 2
        then show ?thesis by (auto simp: t Map)
      next
        case 3
        from less.IH [OF smaller 3] show ?thesis
          by (auto simp: t Map intro: uses_names_child)
      qed
    qed (use x in \<open>simp_all add: descend_def\<close>)
    from less.prems have mem: "e \<in> set (fst (createDirs_loop P base ((dir, subDirs) # rest) en prefix fs))"
      by (simp only: t)
    show ?thesis
    proof (cases "dir = []")
      case True
      with mem have "e = SkippedEmptyName \<or> e \<in> set (fst (createDirs_loop P base rest en prefix fs))"
        by (auto simp add: loop_node simp del: createDirs_loop.simps)
      moreover have "uses_names (join P) ?f base t SkippedEmptyName" by simp
      ultimately show ?thesis using rest_ok by blast
    next
      case nonempty: False
      show ?thesis
      proof (cases "containsAny (?f dir) illegalChars")
        case True
        with nonempty mem
        have "e \<in> set (prefixNote en prefix dir) \<or> e = SkippedIllegalChars (?f dir)
              \<or> e \<in> set (fst (createDirs_loop P base rest en prefix fs))"
          by (auto simp add: loop_node simp del: createDirs_loop.simps)
        moreover have "uses_names (join P) ?f base t (SkippedIllegalChars (?f dir))"
          by (simp add: t)
        ultimately show ?thesis using rest_ok note_ok by blast
      next
        case legal: False
        show ?thesis
        proof (cases "windows P \<and> 260 < length ?full")
          case True
          with nonempty legal mem
          have "e \<in> set (prefixNote en prefix dir) \<or> e = SkippedPathTooLong ?full
                \<or> e \<in> set (fst (createDirs_loop P base rest en prefix fs))"
            by (auto simp add: loop_node simp del: createDirs_loop.simps)
          moreover have "uses_names (join P) ?f base t (SkippedPathTooLong ?full)"
            by (simp add: t)
          ultimately show ?thesis using rest_ok note_ok by blast
        next
          case False
          with nonempty legal mem
          have "e \<in> set (prefixNote en prefix dir)
                \<or> e = outcome (fst (mkdirAll P fs ?full)) ?full
                \<or> e \<in> set (fst (descend P ?full subDirs en prefix (snd (mkdirAll P fs ?full))))
                \<or> e \<in> set (fst (createDirs_loop P base rest en prefix
                     (snd (descend P ?full subDirs en prefix (snd (mkdirAll P fs ?full))))))"
            by (auto simp add: loop_node Let_def simp del: createDirs_loop.simps)
          moreover have "uses_names (join P) ?f base t (outcome r ?full)
                         \<and> ((\<exists>d n. outcome r ?full = PrefixApplied d n) \<longrightarrow> en \<and> prefix \<noteq> [])" for r
            by (cases r) (auto simp: t split: errkind.split)
          ultimately show ?thesis using rest_ok note_ok sub_ok by metis
        qed
      qed
    qed
  qed
qed


text \<open>
  C8. With the prefix policy enabled and a prefix \<open>prefix\<close> that is not empty, every
  entry of the log of \<open>createDirs\<close> speaks of a node under the final name
  \<open>prefix @ name\<close>: the path of a \<open>Created\<close>, \<open>AlreadyExists\<close>, \<open>PermissionDenied\<close>,
  \<open>OtherError\<close> or \<open>SkippedPathTooLong\<close> entry is the path of a node of the tree in
  which every name, at every depth, was prefixed before it was joined to its parent's
  path, and a \<open>SkippedIllegalChars\<close> entry shows the prefixed name. With the policy
  disabled or the prefix empty the same holds with every name unchanged, and the log has
  no \<open>PrefixApplied\<close> entry.
\<close>

theorem prefix_policy_uniform:
  assumes "e \<in> set (fst (createDirs P basePath t en prefix fs))"
  shows "(en \<and> prefix \<noteq> [] \<longrightarrow> uses_names (join P) (\<lambda>dir. prefix @ dir) basePath t e)
       \<and> (\<not> (en \<and> prefix \<noteq> []) \<longrightarrow>
            uses_names (join P) (\<lambda>dir. dir) basePath t e \<and> (\<forall>d n. e \<noteq> PrefixApplied d n))"
proof -
  have on: "finalName en prefix = (\<lambda>dir. prefix @ dir)" if "en \<and> prefix \<noteq> []"
    using that by (simp add: fun_eq_iff finalName_def)
  have off: "finalName en prefix = (\<lambda>dir. dir)" if "\<not> (en \<and> prefix \<noteq> [])"
    using that by (auto simp: fun_eq_iff finalName_def)
  have "uses_names (join P) (finalName en prefix) basePath t e
        \<and> ((\<exists>d n. e = PrefixApplied d n) \<longrightarrow> en \<and> prefix \<noteq> [])"
    using createDirs_entries [OF assms]
  proof (elim disjE exE)
    assume "e \<in> {EmptyRootPath, RootMissing basePath, RootCreated basePath}"
    then show ?thesis by auto
  next
    fix r assume "e = RootCreateFailed basePath r"
    then show ?thesis by simp
  next
    fix fs' assume "e \<in> set (fst (createDirs_loop P basePath t en prefix fs'))"
    then show ?thesis by (rule loop_uses_names)
  qed
  then show ?thesis
    using on off by (cases "en \<and> prefix \<noteq> []") auto
qed

theorem prefix_policy_uniform_witness:
  "fst (createDirs posix ''/r'' sample_tree True ''X_'' only_r)
     = [PrefixApplied ''a'' ''X_a'', Created ''/r/X_a'',
        PrefixApplied ''b'' ''X_b'', Created ''/r/X_a/X_b'',
        PrefixApplied ''c<'' ''X_c<'', SkippedIllegalChars ''X_c<'']
   \<and> uses_names (join posix) (\<lambda>dir. ''X_'' @ dir) ''/r'' sample_tree (Created ''/r/X_a/X_b'')
   \<and> fst (createDirs posix ''/r'' sample_tree False ''X_'' only_r)
     = [Created ''/r/a'', Created ''/r/a/b'', SkippedIllegalChars ''c<'']
   \<and> uses_names (join posix) (\<lambda>dir. dir) ''/r'' sample_tree (Created ''/r/a/b'')"
proof -
  have run_on: "fst (createDirs posix ''/r'' sample_tree True ''X_'' only_r)
     = [PrefixApplied ''a'' ''X_a'', Created ''/r/X_a'',
        PrefixApplied ''b'' ''X_b'', Created ''/r/X_a/X_b'',
        PrefixApplied ''c<'' ''X_c<'', SkippedIllegalChars ''X_c<'']"
    and run_off: "fst (createDirs posix ''/r'' sample_tree False ''X_'' only_r)
     = [Created ''/r/a'', Created ''/r/a/b'', SkippedIllegalChars ''c<'']"
    by code_simp+
  have in_on: "Created ''/r/X_a/X_b'' \<in> set (fst (createDirs posix ''/r'' sample_tree True ''X_'' only_r))"
    by (simp only: run_on) simp
  have in_off: "Created ''/r/a/b'' \<in> set (fst (createDirs posix ''/r'' sample_tree False ''X_'' only_r))"
    by (simp only: run_off) simp
  from prefix_policy_uniform [OF in_on]
  have 1: "uses_names (join posix) (\<lambda>dir. ''X_'' @ dir) ''/r'' sample_tree (Created ''/r/X_a/X_b'')"
    by simp
  from prefix_policy_uniform [OF in_off]
  have 2: "uses_names (join posix) (\<lambda>dir. dir) ''/r'' sample_tree (Created ''/r/a/b'')"
    by simp
  from run_on run_off 1 2 show ?thesis by blast
qed


section \<open>Parsing\<close>

text \<open>
  C6. For a file that exists and can be read: empty data fails with \<open>EmptyFile\<close>,
  whatever the extension and whatever the decoders would return, so before any
  decoding; data that decodes to an empty mapping, JSON or YAML, fails with
  \<open>EmptyStructure\<close>; data that decodes to \<^verbatim>\<open>{"a": null}\<close> gives the tree whose only node
  is \<^verbatim>\<open>a\<close>, without children.
\<close>

theorem empty_inputs_rejected:
  assumes "\<not> file_notexist L filePath" and "readFile L filePath = Inr data"
  shows "(data = [] \<longrightarrow> parseStructureFromFile L filePath = Inl (EmptyFile filePath))
       \<and> (data \<noteq> [] \<and> decoded L filePath data = Some (fmt, Inr (Map [])) \<longrightarrow>
            parseStructureFromFile L filePath = Inl (EmptyStructure filePath))
       \<and> (data \<noteq> [] \<and> decoded L filePath data = Some (fmt, Inr (Map [(''a'', Null)])) \<longrightarrow>
            parseStructureFromFile L filePath = Inr [(''a'', Null)]
            \<and> all_nodes [(''a'', Null)] = [(''a'', Null)])"
  using assms
  by (auto simp: parseStructureFromFile_def decoded_def unmarshal_def Let_def
        split: if_splits)

theorem empty_inputs_rejected_witness:
  "parseStructureFromFile demo_loader ''/c/empty.json'' = Inl (EmptyFile ''/c/empty.json'')
   \<and> parseStructureFromFile demo_loader ''/c/none.json'' = Inl (EmptyStructure ''/c/none.json'')
   \<and> parseStructureFromFile demo_loader ''/c/none.yaml'' = Inl (EmptyStructure ''/c/none.yaml'')
   \<and> parseStructureFromFile demo_loader ''/c/a.json'' = Inr [(''a'', Null)]
   \<and> parseStructureFromFile demo_loader ''/c/a.yml'' = Inr [(''a'', Null)]"
proof -
  have e: "\<not> file_notexist demo_loader ''/c/empty.json''"
    "readFile demo_loader ''/c/empty.json'' = Inr []"
    and nj: "\<not> file_notexist demo_loader ''/c/none.json''"
    "readFile demo_loader ''/c/none.json'' = Inr ''{}''"
    and ny: "\<not> file_notexist demo_loader ''/c/none.yaml''"
    "readFile demo_loader ''/c/none.yaml'' = Inr ''{}''"
    and aj: "\<not> file_notexist demo_loader ''/c/a.json''"
    "readFile demo_loader ''/c/a.json'' = Inr text_a_null"
    and ay: "\<not> file_notexist demo_loader ''/c/a.yml''"
    "readFile demo_loader ''/c/a.yml'' = Inr ''a:''"
    by code_simp+
  have d: "decoded demo_loader ''/c/none.json'' ''{}'' = Some (JSON, Inr (Map []))"
    "decoded demo_loader ''/c/none.yaml'' ''{}'' = Some (YAML, Inr (Map []))"
    "decoded demo_loader ''/c/a.json'' text_a_null = Some (JSON, Inr (Map [(''a'', Null)]))"
    "decoded demo_loader ''/c/a.yml'' ''a:'' = Some (YAML, Inr (Map [(''a'', Null)]))"
    "text_a_null \<noteq> []"
    by code_simp+
  from empty_inputs_rejected [OF e]
  have 1: "parseStructureFromFile demo_loader ''/c/empty.json'' = Inl (EmptyFile ''/c/empty.json'')"
    by simp
  from empty_inputs_rejected [OF nj, of JSON] d
  have 2: "parseStructureFromFile demo_loader ''/c/none.json'' = Inl (EmptyStructure ''/c/none.json'')"
    by simp
  from empty_inputs_rejected [OF ny, of YAML] d
  have 3: "parseStructureFromFile demo_loader ''/c/none.yaml'' = Inl (EmptyStructure ''/c/none.yaml'')"
    by simp
  from empty_inputs_rejected [OF aj, of JSON] d
  have 4: "parseStructureFromFile demo_loader ''/c/a.json'' = Inr [(''a'', Null)]"
    by simp
  from empty_inputs_rejected [OF ay, of YAML] d
  have 5: "parseStructureFromFile demo_loader ''/c/a.yml'' = Inr [(''a'', Null)]"
    by simp
  from 1 2 3 4 5 show ?thesis by blast
qed


text \<open>
  C4 as stated does not hold: the file \<^verbatim>\<open>{"a": "x"}\<close> has a string as child value, and
  it is parsed into a tree.
\<close>

theorem nested_scalar_accepted_counterexample:
  "invalidChild (Map [(''a'', Str ''x'')])
   \<and> json_decode demo_loader text_a_x = Inr (Map [(''a'', Str ''x'')])
   \<and> parseStructureFromFile demo_loader ''/c/x.json'' = Inr [(''a'', Str ''x'')]"
  by code_simp

text \<open>
  C4, amended. For a file that exists, can be read, is not empty and has a supported
  extension, whose data the decoder reads as a document: when the document itself is
  neither a mapping nor null, parsing fails with a \<open>DecodeError\<close>; when it is a mapping
  that is not empty, parsing returns that mapping as it is, whatever its values are at
  any depth.
\<close>

theorem decode_error_only_at_top_level:
  assumes "\<not> file_notexist L filePath" and "readFile L filePath = Inr data" and "data \<noteq> []"
    and "decoded L filePath data = Some (fmt, Inr doc)"
  shows "(\<not> isMapping doc \<and> doc \<noteq> Null \<longrightarrow>
            (\<exists>msg. parseStructureFromFile L filePath = Inl (DecodeError fmt filePath msg)))
       \<and> (\<forall>m. doc = Map m \<and> m \<noteq> [] \<longrightarrow> parseStructureFromFile L filePath = Inr m)"
  using assms
  by (cases doc)
    (auto simp: parseStructureFromFile_def decoded_def unmarshal_def Let_def
          split: if_splits)

theorem decode_error_only_at_top_level_witness:
  "(\<exists>msg. parseStructureFromFile demo_loader ''/c/s.json''
            = Inl (DecodeError JSON ''/c/s.json'' msg))
   \<and> parseStructureFromFile demo_loader ''/c/x.json'' = Inr [(''a'', Str ''x'')]"
proof -
  have s: "\<not> file_notexist demo_loader ''/c/s.json''"
    "readFile demo_loader ''/c/s.json'' = Inr [CHR 0x22, CHR ''x'', CHR 0x22]"
    "[CHR 0x22, CHR ''x'', CHR 0x22] \<noteq> []"
    "decoded demo_loader ''/c/s.json'' [CHR 0x22, CHR ''x'', CHR 0x22] = Some (JSON, Inr (Str ''x''))"
    by code_simp+
  have x: "\<not> file_notexist demo_loader ''/c/x.json''"
    "readFile demo_loader ''/c/x.json'' = Inr text_a_x"
    "text_a_x \<noteq> []"
    "decoded demo_loader ''/c/x.json'' text_a_x = Some (JSON, Inr (Map [(''a'', Str ''x'')]))"
    by code_simp+
  from decode_error_only_at_top_level [OF s]
  have 1: "\<exists>msg. parseStructureFromFile demo_loader ''/c/s.json''
            = Inl (DecodeError JSON ''/c/s.json'' msg)"
    by simp
  from decode_error_only_at_top_level [OF x]
  have 2: "parseStructureFromFile demo_loader ''/c/x.json'' = Inr [(''a'', Str ''x'')]"
    by simp
  from 1 2 show ?thesis by blast
qed



section \<open>The summary\<close>

lemma Count_Nil: "Count [] m = 0"
  by (simp add: Count.simps)

lemma Count_Cons:
  "m \<noteq> [] \<Longrightarrow> Count (c # s) m =
     (if hasPrefix (c # s) m then 1 + Count (drop (length m) (c # s)) m else Count s m)"
  by (subst Count.simps) simp

lemma hasPrefix_append_char:
  "hasPrefix (x @ c # s) m \<Longrightarrow> hasPrefix x m \<or> c \<in> set m"
proof (induction x arbitrary: m)
  case Nil
  then show ?case by (cases m) auto
next
  case (Cons a x)
  then show ?case by (cases m) auto
qed

lemma Count_skip_text:
  assumes "m \<noteq> []" and "\<not> contains u m" and "c \<notin> set m"
  shows "Count (u @ c # s) m = Count (c # s) m"
  using assms(2)
proof (induction u)
  case Nil
  then show ?case by simp
next
  case (Cons a u)
  from Cons.prems have no: "\<not> hasPrefix (a # u) m" and rest: "\<not> contains u m"
    by simp_all
  have "\<not> hasPrefix ((a # u) @ c # s) m"
    using hasPrefix_append_char [of "a # u" c s m] no assms(3) by blast
  then have "Count ((a # u) @ c # s) m = Count (u @ c # s) m"
    using assms(1) by (simp add: Count_Cons)
  with Cons.IH [OF rest] show ?case by simp
qed

lemmas templates = t_empty_root_def t_root_missing_def t_root_failed_def t_reason_def
  t_root_created_def t_skip_empty_def t_prefix_def t_arrow_def t_skip_illegal_def
  t_skip_long_def t_create_failed_def t_permission_def t_exists_def t_created_def

lemma created_weight:
  assumes "list_all plain (texts e)"
  shows "Count (render e @ rest) created_marker
           = (if isCreated e then 1 else 0) + Count rest created_marker"
  using assms
  by (cases e)
    (simp_all add: plain_def Count_Cons Count_skip_text created_marker_def templates
       split del: if_split)

lemma error_weight:
  assumes "list_all plain (texts e)"
  shows "Count (render e @ rest) error_marker
           = (if isRootError e then 1 else 0) + Count rest error_marker"
  using assms
  by (cases e)
    (simp_all add: plain_def Count_Cons Count_skip_text error_marker_def templates
       split del: if_split)

lemma skip_weight:
  assumes "list_all plain (texts e)"
  shows "Count (render e @ rest) skip_marker
           = (if isSkipped e then 1 else 0) + Count rest skip_marker"
  using assms
  by (cases e)
    (simp_all add: plain_def Count_Cons Count_skip_text skip_marker_def templates
       split del: if_split)

lemma created_total:
  "plain_log es \<Longrightarrow> Count (concat (map render es)) created_marker = length (filter isCreated es)"
  by (induction es) (simp_all add: plain_log_def Count_Nil created_weight)

lemma error_total:
  "plain_log es \<Longrightarrow> Count (concat (map render es)) error_marker = length (filter isRootError es)"
  by (induction es) (simp_all add: plain_log_def Count_Nil error_weight)

lemma skip_total:
  "plain_log es \<Longrightarrow> Count (concat (map render es)) skip_marker = length (filter isSkipped es)"
  by (induction es) (simp_all add: plain_log_def Count_Nil skip_weight)

lemma errorCount_plain:
  "plain_log es \<Longrightarrow>
   errorCount (map render es) = length (filter isRootError es) + length (filter isSkipped es)"
  by (simp add: errorCount_def error_total skip_total)

text \<open>
  C3 as stated does not hold. When the root cannot be created the log has no entry of
  the five kinds of the skip/failure bucket, and the failure count is 1; and a created
  directory whose name is the third counted string is counted as a failure as well.
\<close>

theorem summary_counts_counterexample:
  "fst (createDirs posix ''/r/t'' [(''a'', Null)] False [] readonly_r)
     = [RootMissing ''/r/t'', RootCreateFailed ''/r/t'' ''mkdir /r/t: permission denied'']
   \<and> errorCount (map render
        [RootMissing ''/r/t'', RootCreateFailed ''/r/t'' ''mkdir /r/t: permission denied'']) = 1
   \<and> length (filter isSkipOrFailure
        [RootMissing ''/r/t'', RootCreateFailed ''/r/t'' ''mkdir /r/t: permission denied'']) = 0
   \<and> fst (createDirs posix ''/r'' [(skip_name, Null)] False [] only_r)
     = [Created (''/r/'' @ skip_name)]
   \<and> errorCount (map render [Created (''/r/'' @ skip_name)]) = 1
   \<and> length (filter isSkipOrFailure [Created (''/r/'' @ skip_name)]) = 0"
  by code_simp

text \<open>
  C3, amended. For every log whose variable texts (paths, names, error reasons) contain
  none of the three counted strings: the success count is the number of \<open>Created\<close>
  entries; and when the log has no \<open>PermissionDenied\<close> and no \<open>OtherError\<close> entry, the
  failure count is the number of \<open>SkippedEmptyName\<close>, \<open>SkippedIllegalChars\<close> and
  \<open>SkippedPathTooLong\<close> entries plus the number of \<open>EmptyRootPath\<close> and
  \<open>RootCreateFailed\<close> entries. So \<open>AlreadyExists\<close>, \<open>PrefixApplied\<close>, \<open>RootCreated\<close> and
  \<open>RootMissing\<close> entries are counted in neither.
\<close>

theorem summary_counts:
  assumes "plain_log es"
  shows "successCount (map render es) = length (filter isCreated es)
       \<and> ((\<forall>e \<in> set es. \<not> isCreateFailure e) \<longrightarrow>
            errorCount (map render es)
              = length (filter isSkipped es) + length (filter isRootError es))"
  using assms by (simp add: successCount_def created_total errorCount_plain)

theorem summary_counts_witness:
  "fst (createDirs posix ''/r'' sample_tree True ''X_'' only_r)
     = [PrefixApplied ''a'' ''X_a'', Created ''/r/X_a'',
        PrefixApplied ''b'' ''X_b'', Created ''/r/X_a/X_b'',
        PrefixApplied ''c<'' ''X_c<'', SkippedIllegalChars ''X_c<'']
   \<and> successCount (map render
        [PrefixApplied ''a'' ''X_a'', Created ''/r/X_a'',
         PrefixApplied ''b'' ''X_b'', Created ''/r/X_a/X_b'',
         PrefixApplied ''c<'' ''X_c<'', SkippedIllegalChars ''X_c<'']) = 2
   \<and> errorCount (map render
        [PrefixApplied ''a'' ''X_a'', Created ''/r/X_a'',
         PrefixApplied ''b'' ''X_b'', Created ''/r/X_a/X_b'',
         PrefixApplied ''c<'' ''X_c<'', SkippedIllegalChars ''X_c<'']) = 1"
proof -
  let ?log = "[PrefixApplied ''a'' ''X_a'', Created ''/r/X_a'',
         PrefixApplied ''b'' ''X_b'', Created ''/r/X_a/X_b'',
         PrefixApplied ''c<'' ''X_c<'', SkippedIllegalChars ''X_c<'']"
  have run: "fst (createDirs posix ''/r'' sample_tree True ''X_'' only_r) = ?log"
    by code_simp
  have p: "plain_log ?log"
    by code_simp
  have f: "\<forall>e \<in> set ?log. \<not> isCreateFailure e"
    by simp
  from summary_counts [OF p] f
  have "successCount (map render ?log) = length (filter isCreated ?log)"
    and "errorCount (map render ?log)
           = length (filter isSkipped ?log) + length (filter isRootError ?log)"
    by blast+
  then have "successCount (map render ?log) = 2" and "errorCount (map render ?log) = 1"
    by simp_all
  with run show ?thesis by blast
qed

text \<open>
  The messages for a failed creation start with U+521B U+5EFA U+76EE U+5F55 U+5931
  U+8D25 U+FF1A, which is none of the counted strings.
\<close>

lemma create_failures_not_counted:
  "errorCount [render (PermissionDenied ''/r/a'')] = 0
   \<and> errorCount [render (OtherError ''/r/a'' ''mkdir /r/a: not a directory'')] = 0
   \<and> successCount [render (PermissionDenied ''/r/a'')] = 0"
  by code_simp


end
